theory Spec2Isabelle
  imports Main "HOL-Library.Word"
begin

unbundle bit_operations_syntax

section \<open>Values, errors and results\<close>

text \<open>
  Go's \<open>byte\<close>, \<open>uint16\<close>, \<open>uint32\<close> and \<open>uint64\<close> are machine words; a \<open>[]byte\<close> is a
  list of bytes. A Go \<open>string\<close> is a sequence of bytes as well: it is modelled as a HOL
  \<open>string\<close> (a list of 8-bit characters), and the conversion \<open>[]byte(s)\<close> maps every
  character to its byte.
\<close>

type_synonym byte = "8 word"
type_synonym uint16 = "16 word"
type_synonym uint32 = "32 word"
type_synonym uint64 = "64 word"

definition bytes_of_string :: "string \<Rightarrow> byte list" where
  "bytes_of_string s = map of_char s"

text \<open>
  Every \<open>errors.New\<close> and \<open>fmt.Errorf\<close> of the repository is one constructor; the
  arguments are the values the message is formatted with. \<open>External\<close> stands for an
  error value produced by one of the imported libraries (base58, bech32, f4jumble), and
  \<open>Joined\<close> for \<open>errors.Join\<close>, which keeps its non-nil arguments in order.
\<close>

datatype error =
    ExceedsMaximumCompactSize      \<comment> \<open>number exceeds maximum compact size\<close>
  | InvalidCompactSizeEncoding     \<comment> \<open>invalid compact size encoding\<close>
  | BothP2PKHAndP2SH               \<comment> \<open>both P2PKH and P2SH items found in unified address\<close>
  | NotBech32m                     \<comment> \<open>unified addresses must be encoded with bech32m\<close>
  | InvalidHRPOrEncoding           \<comment> \<open>invalid HRP or encoding\<close>
  | InvalidEncodedDataLength       \<comment> \<open>invalid encoded data length\<close>
  | InvalidTrailingPadding         \<comment> \<open>invalid trailing padding\<close>
  | ErrorDecodingItemType error    \<comment> \<open>error decoding item type %w\<close>
  | ErrorDecodingItemData error    \<comment> \<open>error decoding item data %w\<close>
  | IncorrectItemLength uint64     \<comment> \<open>incorrect item length for typecode %d\<close>
  | InsufficientData uint64        \<comment> \<open>insufficient data for receiver with typecode %d\<close>
  | DuplicateItem string           \<comment> \<open>duplicate %s item detected\<close>
  | ItemsOutOfOrder                \<comment> \<open>items out of order\<close>
  | TexDataLength                  \<comment> \<open>tex address data must be 20 bytes\<close>
  | SaplingDataLength              \<comment> \<open>sapling address data must be 43 bytes\<close>
  | UnifiedR1Unsupported           \<comment> \<open>unified address revision 1 decoding not yet supported\<close>
  | Joined "error list"
  | External string

text \<open>
  A Go function returning \<open>(T, error)\<close> with a nil or zero \<open>T\<close> beside every non-nil
  error returns \<open>Ok v\<close> or \<open>Err e\<close>; a run-time panic (an index or a slice bound out of
  range) is the third outcome, \<open>Panic\<close>.
\<close>

datatype 'a result = Ok 'a | Err error | Panic

definition bind :: "'a result \<Rightarrow> ('a \<Rightarrow> 'b result) \<Rightarrow> 'b result" where
  "bind r f = (case r of Ok v \<Rightarrow> f v | Err e \<Rightarrow> Err e | Panic \<Rightarrow> Panic)"

section \<open>Package compactsize\<close>

definition maxCompactSize :: uint64 where
  "maxCompactSize = 0x2000000"

text \<open>
  \<open>binary.Write(buf, binary.LittleEndian, n)\<close> for an unsigned integer of \<open>k\<close> bytes:
  the low byte first, then the rest shifted right by eight bits.
\<close>

fun binaryWrite :: "nat \<Rightarrow> 'a::len word \<Rightarrow> byte list" where
  "binaryWrite 0 n = []"
| "binaryWrite (Suc k) n = ucast n # binaryWrite k (drop_bit 8 n)"

text \<open>
  \<open>binary.LittleEndian.Uint16\<close>, \<open>Uint32\<close> and \<open>Uint64\<close> read the first 2, 4 and 8
  bytes of their argument: \<open>b[0] | b[1]<<8 | ...\<close>. The callers have checked the length.
\<close>

fun littleEndian :: "byte list \<Rightarrow> 'a::len word" where
  "littleEndian [] = 0"
| "littleEndian (b # bs) = ucast b OR push_bit 8 (littleEndian bs)"

definition binaryReadUint16 :: "byte list \<Rightarrow> uint16" where
  "binaryReadUint16 b = littleEndian (take 2 b)"

definition binaryReadUint32 :: "byte list \<Rightarrow> uint32" where
  "binaryReadUint32 b = littleEndian (take 4 b)"

definition binaryReadUint64 :: "byte list \<Rightarrow> uint64" where
  "binaryReadUint64 b = littleEndian (take 8 b)"

definition WriteCompactSize :: "uint64 \<Rightarrow> bool \<Rightarrow> byte list result" where
  "WriteCompactSize n allowOutOfRange =
     (if \<not> allowOutOfRange \<and> n > maxCompactSize then Err ExceedsMaximumCompactSize
      else if n < 253 then Ok [ucast n]
      else if n \<le> 0xFFFF then Ok (253 # binaryWrite 2 (ucast n :: uint16))
      else if n \<le> 0xFFFFFFFF then Ok (254 # binaryWrite 4 (ucast n :: uint32))
      else Ok (255 # binaryWrite 8 n))"

definition ParseCompactSize :: "byte list \<Rightarrow> bool \<Rightarrow> (uint64 \<times> byte list) result" where
  "ParseCompactSize rest allowOutOfRange =
     (if length rest < 1 then Err InvalidCompactSizeEncoding
      else
        let b = hd rest;
            read =
              (if b = 253 then
                 (if length rest < 3 then None
                  else Some (ucast (binaryReadUint16 (drop 1 rest)), drop 3 rest))
               else if b = 254 then
                 (if length rest < 5 then None
                  else Some (ucast (binaryReadUint32 (drop 1 rest)), drop 5 rest))
               else if b = 255 then
                 (if length rest < 9 then None
                  else Some (binaryReadUint64 (drop 1 rest), drop 9 rest))
               else Some (ucast b, drop 1 rest))
        in case read of
             None \<Rightarrow> Err InvalidCompactSizeEncoding
           | Some (n, rest') \<Rightarrow>
               if \<not> allowOutOfRange \<and> n > maxCompactSize then Err ExceedsMaximumCompactSize
               else Ok (n, rest'))"

text \<open>
  The value of a byte string read as a little-endian number, as the specification words it
  (least significant byte first); used to state what \<open>WriteCompactSize\<close> emits.
\<close>

fun little_endian_value :: "byte list \<Rightarrow> nat" where
  "little_endian_value [] = 0"
| "little_endian_value (b # bs) = unat b + 256 * little_endian_value bs"


section \<open>The imported libraries\<close>

text \<open>
  \<open>EncodeUnified\<close>, \<open>DecodeUnified\<close> and \<open>DecodeAddress\<close> call functions of three
  imported packages (f4jumble, bech32 and base58), which are not part of this repository.
  They are parameters of the model: a value of the record \<open>libs\<close> holds one function for
  each imported function the repository calls. The tuple results are the Go result tuples;
  where the Go function returns \<open>(value, error)\<close> and the caller reads the value only when
  the error is nil, the result is a \<open>result\<close>.
\<close>

datatype Version = Version0 | VersionM | VersionUnknown

record libs =
  F4Jumble :: "byte list \<Rightarrow> byte list result"
  F4JumbleInv :: "byte list \<Rightarrow> byte list result"
  ConvertBits :: "byte list \<Rightarrow> nat \<Rightarrow> nat \<Rightarrow> bool \<Rightarrow> byte list result"
  EncodeM :: "string \<Rightarrow> byte list \<Rightarrow> string result"
  DecodeNoLimitWithVersion :: "string \<Rightarrow> string \<times> byte list \<times> Version \<times> error option"
  DecodeGeneric :: "string \<Rightarrow> string \<times> byte list \<times> Version \<times> error option"
  CheckDecode :: "string \<Rightarrow> byte list \<times> byte \<times> error option"

section \<open>Package unifiedaddress\<close>

text \<open>\<open>ItemType\<close> is \<open>uint64\<close>.\<close>

definition P2PKHItem :: uint64 where "P2PKHItem = 0x00"
definition P2SHItem :: uint64 where "P2SHItem = 0x01"
definition SaplingItem :: uint64 where "SaplingItem = 0x02"
definition OrchardItem :: uint64 where "OrchardItem = 0x03"
definition NoPreviousItem :: uint64 where "NoPreviousItem = 0xffffffff"

definition getExpectedLength :: "uint64 \<Rightarrow> uint64" where
  "getExpectedLength itemType =
     (if itemType = P2PKHItem then 20
      else if itemType = P2SHItem then 20
      else if itemType = SaplingItem then 43
      else if itemType = OrchardItem then 43
      else 0)"

definition getItemName :: "uint64 \<Rightarrow> string" where
  "getItemName itemType =
     (if itemType = P2PKHItem \<or> itemType = P2SHItem then ''transparent''
      else if itemType = SaplingItem then ''sapling''
      else if itemType = OrchardItem then ''orchard''
      else ''unknown'')"

text \<open>
  \<open>tlv\<close>: when the second \<open>WriteCompactSize\<close> fails the source returns \<open>nil, err\<close> with
  the (nil) error of the first call, that is an empty slice and no error.
  \<open>uint64(len(value))\<close> is \<open>of_nat (length val)\<close>.
\<close>

definition tlv :: "uint64 \<Rightarrow> byte list \<Rightarrow> byte list result" where
  "tlv typecode val =
     (case WriteCompactSize typecode True of
        Err err \<Rightarrow> Err err
      | Panic \<Rightarrow> Panic
      | Ok start \<Rightarrow>
          (case WriteCompactSize (of_nat (length val)) True of
             Err err2 \<Rightarrow> Ok []
           | Panic \<Rightarrow> Panic
           | Ok st \<Rightarrow> Ok (start @ st @ val)))"

text \<open>\<open>padLength\<close> is a Go \<open>int\<close>: the subtraction can be negative, and is then set to 0.\<close>

definition padding :: "string \<Rightarrow> byte list" where
  "padding hrp =
     (let hrpBytes = bytes_of_string hrp;
          padLength = 16 - int (length hrpBytes);
          padLength = (if padLength < 0 then 0 else padLength)
      in hrpBytes @ replicate (nat padLength) 0x00)"

text \<open>
  A \<open>*[20]byte\<close> or \<open>*[43]byte\<close> field is \<open>None\<close> for nil and \<open>Some\<close> of the array's bytes
  otherwise; \<open>fixed_size\<close> says that the arrays have the length of their Go type. The
  \<open>Unknown\<close> map is a partial function (a nil map and an empty map are both the empty map).
\<close>

record UnifiedAddress =
  P2pkh :: "byte list option"
  P2sh :: "byte list option"
  Sapling :: "byte list option"
  Orchard :: "byte list option"
  Unknown :: "uint64 \<rightharpoonup> byte list"

definition has_length :: "nat \<Rightarrow> byte list option \<Rightarrow> bool" where
  "has_length n field = (case field of None \<Rightarrow> True | Some v \<Rightarrow> length v = n)"

definition fixed_size :: "UnifiedAddress \<Rightarrow> bool" where
  "fixed_size addr \<longleftrightarrow>
     has_length 20 (UnifiedAddress.P2pkh addr) \<and> has_length 20 (UnifiedAddress.P2sh addr) \<and>
     has_length 43 (UnifiedAddress.Sapling addr) \<and> has_length 43 (UnifiedAddress.Orchard addr)"

text \<open>
  \<open>for itemType, item := range addr.Unknown\<close>: Go does not specify the order in which
  \<open>range\<close> visits the keys of a map, and the order may differ from one run to the next.
  The order of one run is an argument of the model, a list \<open>keys\<close> that holds every key of
  the map once (\<open>iteration_order\<close>).
\<close>

definition iteration_order :: "('k \<rightharpoonup> 'v) \<Rightarrow> 'k list \<Rightarrow> bool" where
  "iteration_order m keys \<longleftrightarrow> distinct keys \<and> set keys = dom m"

text \<open>
  The block the source repeats for every item:
  \<open>tlvVal, err := tlv(...); if err != nil { return "", err } else { encodedItems = append(encodedItems, tlvVal) }\<close>.
\<close>

definition appendItem :: "uint64 \<Rightarrow> byte list \<Rightarrow> byte list list \<Rightarrow> byte list list result" where
  "appendItem typecode val encodedItems =
     (case tlv typecode val of
        Err err \<Rightarrow> Err err
      | Panic \<Rightarrow> Panic
      | Ok tlvVal \<Rightarrow> Ok (encodedItems @ [tlvVal]))"

definition appendReceiver ::
  "uint64 \<Rightarrow> byte list option \<Rightarrow> byte list list \<Rightarrow> byte list list result" where
  "appendReceiver typecode field encodedItems =
     (case field of
        None \<Rightarrow> Ok encodedItems
      | Some val \<Rightarrow> appendItem typecode val encodedItems)"

fun appendUnknown ::
  "(uint64 \<rightharpoonup> byte list) \<Rightarrow> uint64 list \<Rightarrow> byte list list \<Rightarrow> byte list list result" where
  "appendUnknown unknown [] encodedItems = Ok encodedItems"
| "appendUnknown unknown (itemType # keys) encodedItems =
     (case unknown itemType of
        None \<Rightarrow> appendUnknown unknown keys encodedItems
      | Some item \<Rightarrow>
          if length item > 0 then
            bind (appendItem itemType item encodedItems) (appendUnknown unknown keys)
          else appendUnknown unknown keys encodedItems)"

text \<open>Lines 113 to 164 of \<open>EncodeUnified\<close>: the bytes handed to \<open>F4Jumble\<close>.\<close>

definition EncodeUnified_rBytes :: "UnifiedAddress \<Rightarrow> string \<Rightarrow> uint64 list \<Rightarrow> byte list result" where
  "EncodeUnified_rBytes addr hrp keys =
     (if UnifiedAddress.P2pkh addr \<noteq> None \<and> UnifiedAddress.P2sh addr \<noteq> None
      then Err BothP2PKHAndP2SH
      else
        bind (appendReceiver P2PKHItem (UnifiedAddress.P2pkh addr) []) (\<lambda>encodedItems.
        bind (appendReceiver P2SHItem (UnifiedAddress.P2sh addr) encodedItems) (\<lambda>encodedItems.
        bind (appendReceiver SaplingItem (UnifiedAddress.Sapling addr) encodedItems) (\<lambda>encodedItems.
        bind (appendReceiver OrchardItem (UnifiedAddress.Orchard addr) encodedItems) (\<lambda>encodedItems.
        bind (appendUnknown (Unknown addr) keys encodedItems) (\<lambda>encodedItems.
        Ok (concat (encodedItems @ [padding hrp]))))))))"

definition EncodeUnified :: "libs \<Rightarrow> UnifiedAddress \<Rightarrow> string \<Rightarrow> uint64 list \<Rightarrow> string result" where
  "EncodeUnified c addr hrp keys =
     bind (EncodeUnified_rBytes addr hrp keys) (\<lambda>rBytes.
     bind (F4Jumble c rBytes) (\<lambda>jumbledBytes.
     bind (ConvertBits c jumbledBytes 8 5 True) (\<lambda>converted.
     EncodeM c hrp converted)))"

text \<open>
  The loop of \<open>DecodeUnified\<close> (lines 224 to 260), with the map \<open>receivers\<close> and
  \<open>prevType\<close> as its state. \<open>int(itemLen)\<close> is the two's complement reading of
  \<open>itemLen\<close> (an \<open>int\<close> has 64 bits on the platforms Go builds this for by default);
  when it is negative the length check passes and the slice expression
  \<open>remaining[:itemLen]\<close> panics.
\<close>

function DecodeUnified_items ::
  "byte list \<Rightarrow> (uint64 \<rightharpoonup> byte list) \<Rightarrow> uint64 \<Rightarrow> (uint64 \<rightharpoonup> byte list) result" where
  "DecodeUnified_items rest receivers prevType =
     (if length rest > 0 then
        (case ParseCompactSize rest True of
           Err e \<Rightarrow> Err (ErrorDecodingItemType e)
         | Panic \<Rightarrow> Panic
         | Ok (itemType, remaining) \<Rightarrow>
             (case ParseCompactSize remaining True of
                Err e2 \<Rightarrow> Err (ErrorDecodingItemData e2)
              | Panic \<Rightarrow> Panic
              | Ok (itemLen, remaining) \<Rightarrow>
                  if getExpectedLength itemType > 0 \<and> itemLen \<noteq> getExpectedLength itemType
                  then Err (IncorrectItemLength itemType)
                  else if int (length remaining) < sint itemLen
                  then Err (InsufficientData itemType)
                  else if length remaining < unat itemLen then Panic
                  else if receivers itemType \<noteq> None
                  then Err (DuplicateItem (getItemName itemType))
                  else if prevType \<noteq> NoPreviousItem \<and> itemType \<le> prevType
                  then Err ItemsOutOfOrder
                  else DecodeUnified_items (drop (unat itemLen) remaining)
                         (receivers(itemType \<mapsto> take (unat itemLen) remaining)) itemType))
      else Ok receivers)"
  by pat_completeness auto
termination
proof (relation "measure (\<lambda>(rest, receivers, prevType). length rest)")
  show "wf (measure (\<lambda>(rest, receivers, prevType). length rest))"
    by simp
next
  fix rest :: "byte list" and receivers :: "uint64 \<rightharpoonup> byte list" and prevType :: uint64
    and x2 itemType remaining x2a itemLen remaining'
  assume "ParseCompactSize rest True = Ok x2" and "(itemType, remaining) = x2"
    and "ParseCompactSize remaining True = Ok x2a" and "(itemLen, remaining') = x2a"
  then have "length remaining < length rest" and "length remaining' < length remaining"
    by (auto simp: ParseCompactSize_def Let_def split: if_splits)
  then show "((drop (unat itemLen) remaining',
        receivers(itemType \<mapsto> take (unat itemLen) remaining'), itemType),
      rest, receivers, prevType) \<in> measure (\<lambda>(rest, receivers, prevType). length rest)"
    by simp
qed

text \<open>
  \<open>copy(dst[:], data)\<close> into a fresh array of \<open>n\<close> zero bytes: the first \<open>n\<close> bytes of
  \<open>data\<close>, and zeros where \<open>data\<close> is shorter.
\<close>

definition copyArray :: "nat \<Rightarrow> byte list \<Rightarrow> byte list" where
  "copyArray n data = take n data @ replicate (n - length data) 0"

text \<open>
  Lines 262 to 283: every key of \<open>receivers\<close> is stored in a field of its own or in
  \<open>Unknown\<close> under the same key, so the order of this \<open>range\<close> does not change the result.
\<close>

definition DecodeUnified_result :: "(uint64 \<rightharpoonup> byte list) \<Rightarrow> UnifiedAddress" where
  "DecodeUnified_result receivers =
     \<lparr> UnifiedAddress.P2pkh = map_option (copyArray 20) (receivers P2PKHItem),
       UnifiedAddress.P2sh = map_option (copyArray 20) (receivers P2SHItem),
       UnifiedAddress.Sapling = map_option (copyArray 43) (receivers SaplingItem),
       UnifiedAddress.Orchard = map_option (copyArray 43) (receivers OrchardItem),
       Unknown = receivers |` (- {P2PKHItem, P2SHItem, SaplingItem, OrchardItem}) \<rparr>"

text \<open>
  Lines 214 to 283: \<open>decoded\<close> is the result of \<open>F4JumbleInv\<close>. The slice expression
  \<open>decoded[len(decoded)-16:]\<close> panics when \<open>decoded\<close> has fewer than 16 bytes.
\<close>

definition DecodeUnified_decoded :: "byte list \<Rightarrow> string \<Rightarrow> UnifiedAddress result" where
  "DecodeUnified_decoded decoded expectedHrp =
     (if length decoded < 16 then Panic
      else
        let suffix = drop (length decoded - 16) decoded in
        if suffix \<noteq> padding expectedHrp then Err InvalidTrailingPadding
        else
          let rest = take (length decoded - 16) decoded in
          bind (DecodeUnified_items rest Map.empty NoPreviousItem) (\<lambda>receivers.
          Ok (DecodeUnified_result receivers)))"

definition DecodeUnified :: "libs \<Rightarrow> string \<Rightarrow> string \<Rightarrow> UnifiedAddress result" where
  "DecodeUnified c encoded expectedHrp =
     (case DecodeNoLimitWithVersion c encoded of
        (hrp, data, version, encoding) \<Rightarrow>
          if version \<noteq> VersionM then Err NotBech32m
          else if hrp \<noteq> expectedHrp \<or> encoding \<noteq> None then Err InvalidHRPOrEncoding
          else if length data < 48 then Err InvalidEncodedDataLength
          else
            bind (ConvertBits c data 5 8 False) (\<lambda>convertedBits.
            bind (F4JumbleInv c convertedBits) (\<lambda>decoded.
            DecodeUnified_decoded decoded expectedHrp)))"

section \<open>Package zcashaddress\<close>

text \<open>
  The fields of \<open>ZcashAddress\<close>; \<open>P2pkh\<close>, \<open>P2sh\<close> and \<open>Sapling\<close> are also field names
  of \<open>UnifiedAddress\<close>, so both are written with the record's name in front.
\<close>

record ZcashAddress =
  P2pkh :: "byte list option"
  P2sh :: "byte list option"
  Sapling :: "byte list option"
  Unified :: "UnifiedAddress option"
  Tex :: "byte list option"

text \<open>A \<open>[2]byte\<close> is a pair of bytes: \<open>lead[0]\<close> is \<open>fst\<close>, \<open>lead[1]\<close> is \<open>snd\<close>.\<close>

record Network =
  p2pkhLead :: "byte \<times> byte"
  p2shLead :: "byte \<times> byte"
  texHRP :: string
  saplingHRP :: string
  unifiedHRP :: string
  unifiedR1HRP :: string

definition Mainnet :: Network where
  "Mainnet = \<lparr> p2pkhLead = (0x1c, 0xb8), p2shLead = (0x1c, 0xbd), texHRP = ''tex'',
     saplingHRP = ''zs'', unifiedHRP = ''u'', unifiedR1HRP = ''ur'' \<rparr>"

definition Testnet :: Network where
  "Testnet = \<lparr> p2pkhLead = (0x1D, 0x25), p2shLead = (0x1c, 0xba), texHRP = ''textest'',
     saplingHRP = ''ztestsapling'', unifiedHRP = ''utest'', unifiedR1HRP = ''urtest'' \<rparr>"

definition Regtest :: Network where
  "Regtest = \<lparr> p2pkhLead = (0x1c, 0x25), p2shLead = (0x1c, 0xba), texHRP = ''texregtest'',
     saplingHRP = ''zregtestsapling'', unifiedHRP = ''uregtest'',
     unifiedR1HRP = ''urregtest'' \<rparr>"

text \<open>
  \<open>DecodeAddress\<close> and the accessors return a value beside the error (the named result
  \<open>result\<close>, and a pointer), so their outcome is the returned pair, or a panic.
\<close>

datatype 'a returned = Returns 'a | Panics

text \<open>The zero value of \<open>ZcashAddress\<close>, which the named result \<open>result\<close> starts as.\<close>

definition zeroZcashAddress :: ZcashAddress where
  "zeroZcashAddress = \<lparr> ZcashAddress.P2pkh = None, ZcashAddress.P2sh = None,
     ZcashAddress.Sapling = None, Unified = None, Tex = None \<rparr>"

text \<open>\<open>errors.Join\<close> drops its nil arguments and returns nil when none is left.\<close>

definition errors_Join :: "error option list \<Rightarrow> error option" where
  "errors_Join errs =
     (case concat (map (\<lambda>e. case e of None \<Rightarrow> [] | Some x \<Rightarrow> [x]) errs) of
        [] \<Rightarrow> None
      | es \<Rightarrow> Some (Joined es))"

text \<open>Lines 252 to 260 of \<open>DecodeAddress\<close>: the attempt to decode a unified address.\<close>

definition DecodeAddress_unified ::
  "libs \<Rightarrow> string \<Rightarrow> Network \<Rightarrow> error option \<Rightarrow> error option
     \<Rightarrow> (ZcashAddress \<times> error option) returned" where
  "DecodeAddress_unified c address network base58Error bech32Error =
     (let result = zeroZcashAddress in
      case DecodeUnified c address (unifiedHRP network) of
        Ok unified \<Rightarrow> Returns (result\<lparr>Unified := Some unified\<rparr>, None)
      | Err unifiedDecodedErr \<Rightarrow>
          Returns (result, errors_Join [base58Error, bech32Error, Some unifiedDecodedErr])
      | Panic \<Rightarrow> Panics)"

text \<open>Lines 209 to 250: the bech32 and bech32m attempt, falling through to lines 252 to 260.\<close>

definition DecodeAddress_bech32 ::
  "libs \<Rightarrow> string \<Rightarrow> Network \<Rightarrow> error option \<Rightarrow> (ZcashAddress \<times> error option) returned" where
  "DecodeAddress_bech32 c address network base58Error =
     (let result = zeroZcashAddress in
      case DecodeGeneric c address of
        (humanReadablePrefix, bech32m_decoded_address, bech32Version, bech32Error) \<Rightarrow>
          let fallthrough = DecodeAddress_unified c address network base58Error bech32Error in
          if bech32Error = None then
            if bech32Version = VersionM then
              if humanReadablePrefix = texHRP network then
                (case ConvertBits c bech32m_decoded_address 5 8 True of
                   Ok conv \<Rightarrow>
                     if length conv = 20
                     then Returns (result\<lparr>Tex := Some (copyArray 20 conv)\<rparr>, None)
                     else Returns (result, Some TexDataLength)
                 | Err err \<Rightarrow> Returns (result, Some err)
                 | Panic \<Rightarrow> Panics)
              else if humanReadablePrefix = unifiedR1HRP network then
                Returns (result, Some UnifiedR1Unsupported)
              else fallthrough
            else if bech32Version = Version0 then
              if humanReadablePrefix = saplingHRP network then
                (case ConvertBits c bech32m_decoded_address 5 8 True of
                   Ok data \<Rightarrow>
                     if length data = 43
                     then Returns (result\<lparr>ZcashAddress.Sapling := Some (copyArray 43 data)\<rparr>, None)
                     else Returns (result, Some SaplingDataLength)
                 | Err err \<Rightarrow> Returns (result, Some err)
                 | Panic \<Rightarrow> Panics)
              else fallthrough
            else fallthrough
          else fallthrough)"

text \<open>
  \<open>DecodeAddress\<close>, lines 191 to 207 and then the rest. In
  \<open>base58Version == lead[0] && decoded[0] == lead[1] && len(decoded) == 21\<close> the index
  expression \<open>decoded[0]\<close> is evaluated before the length is compared, and panics on an
  empty payload.
\<close>

definition DecodeAddress ::
  "libs \<Rightarrow> string \<Rightarrow> Network \<Rightarrow> (ZcashAddress \<times> error option) returned" where
  "DecodeAddress c address network =
     (let result = zeroZcashAddress in
      case CheckDecode c address of
        (decoded, base58Version, base58Error) \<Rightarrow>
          let fallthrough = DecodeAddress_bech32 c address network base58Error;
              p2sh =
                (if base58Version = fst (p2shLead network) then
                   if decoded = [] then Panics
                   else if hd decoded = snd (p2shLead network) \<and> length decoded = 21
                   then Returns (result\<lparr>ZcashAddress.P2sh := Some (copyArray 20 (drop 1 decoded))\<rparr>, None)
                   else fallthrough
                 else fallthrough)
          in
          if base58Error = None then
            if base58Version = fst (p2pkhLead network) then
              if decoded = [] then Panics
              else if hd decoded = snd (p2pkhLead network) \<and> length decoded = 21
              then Returns (result\<lparr>ZcashAddress.P2pkh := Some (copyArray 20 (drop 1 decoded))\<rparr>, None)
              else p2sh
            else p2sh
          else fallthrough)"

definition DecodeP2pkh ::
  "libs \<Rightarrow> string \<Rightarrow> Network \<Rightarrow> bool \<Rightarrow> (byte list option \<times> error option) returned" where
  "DecodeP2pkh c address network allowTex =
     (case DecodeAddress c address network of
        Panics \<Rightarrow> Panics
      | Returns (decoded, err) \<Rightarrow>
          if err \<noteq> None then Returns (None, err)
          else if ZcashAddress.P2pkh decoded \<noteq> None
          then Returns (ZcashAddress.P2pkh decoded, None)
          else
            (case Unified decoded of
               Some unified \<Rightarrow> Returns (UnifiedAddress.P2pkh unified, None)
             | None \<Rightarrow>
                 if Tex decoded \<noteq> None \<and> allowTex then Returns (Tex decoded, None)
                 else Returns (None, None)))"

definition DecodeP2sh ::
  "libs \<Rightarrow> string \<Rightarrow> Network \<Rightarrow> (byte list option \<times> error option) returned" where
  "DecodeP2sh c address network =
     (case DecodeAddress c address network of
        Panics \<Rightarrow> Panics
      | Returns (decoded, err) \<Rightarrow>
          if err \<noteq> None then Returns (None, err)
          else if ZcashAddress.P2sh decoded \<noteq> None
          then Returns (ZcashAddress.P2sh decoded, None)
          else
            (case Unified decoded of
               Some unified \<Rightarrow> Returns (UnifiedAddress.P2sh unified, None)
             | None \<Rightarrow> Returns (None, None)))"

definition DecodeSapling ::
  "libs \<Rightarrow> string \<Rightarrow> Network \<Rightarrow> (byte list option \<times> error option) returned" where
  "DecodeSapling c address network =
     (case DecodeAddress c address network of
        Panics \<Rightarrow> Panics
      | Returns (decoded, err) \<Rightarrow>
          if err \<noteq> None then Returns (None, err)
          else if ZcashAddress.Sapling decoded \<noteq> None
          then Returns (ZcashAddress.Sapling decoded, None)
          else
            (case Unified decoded of
               Some unified \<Rightarrow> Returns (UnifiedAddress.Sapling unified, None)
             | None \<Rightarrow> Returns (None, None)))"

definition DecodeOrchard ::
  "libs \<Rightarrow> string \<Rightarrow> Network \<Rightarrow> (byte list option \<times> error option) returned" where
  "DecodeOrchard c address network =
     (case DecodeAddress c address network of
        Panics \<Rightarrow> Panics
      | Returns (decoded, err) \<Rightarrow>
          if err \<noteq> None then Returns (None, err)
          else
            (case Unified decoded of
               Some unified \<Rightarrow> Returns (UnifiedAddress.Orchard unified, None)
             | None \<Rightarrow> Returns (None, None)))"

section \<open>Notions used in the statements and the proofs\<close>

text \<open>
  An entry of \<open>Unknown\<close> is well formed when its typecode is none of the four known
  typecodes and its payload is not empty (and, as for every Go slice, its length fits an
  \<open>int\<close>).
\<close>

definition unknown_well_formed :: "UnifiedAddress \<Rightarrow> bool" where
  "unknown_well_formed addr \<longleftrightarrow>
     (\<forall>k v. Unknown addr k = Some v \<longrightarrow>
        k \<notin> {P2PKHItem, P2SHItem, SaplingItem, OrchardItem} \<and> 0 < length v \<and> length v < 2 ^ 63)"

text \<open>
  What the theorems assume of the imported functions: \<open>F4JumbleInv\<close> undoes \<open>F4Jumble\<close>,
  which keeps the length and accepts no message shorter than 48 bytes; regrouping 5-bit
  groups into bytes undoes the regrouping of bytes into 5-bit groups, which does not make
  the data shorter; and the text decoder returns the prefix and the data the bech32m
  encoder was given for the prefix \<open>hrp\<close>.
\<close>

definition libs_round_trip :: "libs \<Rightarrow> string \<Rightarrow> bool" where
  "libs_round_trip c hrp \<longleftrightarrow>
     (\<forall>message jumbled. F4Jumble c message = Ok jumbled \<longrightarrow>
        F4JumbleInv c jumbled = Ok message \<and> length jumbled = length message
        \<and> 48 \<le> length message)
     \<and> (\<forall>bytes groups. ConvertBits c bytes 8 5 True = Ok groups \<longrightarrow>
        ConvertBits c groups 5 8 False = Ok bytes \<and> length bytes \<le> length groups)
     \<and> (\<forall>groups encoded. EncodeM c hrp groups = Ok encoded \<longrightarrow>
        DecodeNoLimitWithVersion c encoded = (hrp, groups, VersionM, None))"

text \<open>
  The bytes of one item on the wire, and the items \<open>EncodeUnified\<close> emits for an address
  when the map is visited in the order \<open>keys\<close>; both are used in the proofs only.
\<close>

definition compact :: "uint64 \<Rightarrow> byte list" where
  "compact n = (case WriteCompactSize n True of Ok bs \<Rightarrow> bs | Err e \<Rightarrow> [] | Panic \<Rightarrow> [])"

definition item_bytes :: "uint64 \<times> byte list \<Rightarrow> byte list" where
  "item_bytes item = compact (fst item) @ compact (of_nat (length (snd item))) @ snd item"

definition receiver_item :: "uint64 \<Rightarrow> byte list option \<Rightarrow> (uint64 \<times> byte list) list" where
  "receiver_item typecode field = (case field of None \<Rightarrow> [] | Some val \<Rightarrow> [(typecode, val)])"

definition unknown_items :: "(uint64 \<rightharpoonup> byte list) \<Rightarrow> uint64 list \<Rightarrow> (uint64 \<times> byte list) list" where
  "unknown_items unknown keys =
     concat (map (\<lambda>k. case unknown k of
                         None \<Rightarrow> []
                       | Some item \<Rightarrow> if length item > 0 then [(k, item)] else []) keys)"

definition emitted_items :: "UnifiedAddress \<Rightarrow> uint64 list \<Rightarrow> (uint64 \<times> byte list) list" where
  "emitted_items addr keys =
     receiver_item P2PKHItem (UnifiedAddress.P2pkh addr)
     @ receiver_item P2SHItem (UnifiedAddress.P2sh addr)
     @ receiver_item SaplingItem (UnifiedAddress.Sapling addr)
     @ receiver_item OrchardItem (UnifiedAddress.Orchard addr)
     @ unknown_items (Unknown addr) keys"

text \<open>
  The same address with all zero-length \<open>Unknown\<close> entries removed, and what the Go types
  say of the payloads of an address (arrays of their declared size, slices whose length
  fits an \<open>int\<close>).
\<close>

definition without_empty :: "UnifiedAddress \<Rightarrow> UnifiedAddress" where
  "without_empty addr = addr\<lparr>Unknown := Unknown addr |` {k. Unknown addr k \<noteq> Some []}\<rparr>"

definition payloads_fit :: "UnifiedAddress \<Rightarrow> bool" where
  "payloads_fit addr \<longleftrightarrow>
     fixed_size addr \<and> (\<forall>k v. Unknown addr k = Some v \<longrightarrow> length v < 2 ^ 63)"

text \<open>The number of fields of a \<open>ZcashAddress\<close> that are not nil.\<close>

definition non_nil_fields :: "ZcashAddress \<Rightarrow> nat" where
  "non_nil_fields z =
     length (filter (\<lambda>present. present)
       [ZcashAddress.P2pkh z \<noteq> None, ZcashAddress.P2sh z \<noteq> None,
        ZcashAddress.Sapling z \<noteq> None, Unified z \<noteq> None, Tex z \<noteq> None])"

text \<open>One field and no error, or an error and no field.\<close>

definition one_or_error :: "ZcashAddress \<Rightarrow> error option \<Rightarrow> bool" where
  "one_or_error z err \<longleftrightarrow>
     (err = None \<and> non_nil_fields z = 1) \<or> (err \<noteq> None \<and> z = zeroZcashAddress)"

section \<open>Concrete inputs\<close>

text \<open>
  A small instance of the library interface, on which the functions can be evaluated: a
  length-checked reversal in place of the diffusion permutation and its inverse (the real
  one accepts 48 to 4194368 bytes), the identity in place of the regrouping of bits, and a
  text encoding that writes the prefix, the separator \<open>1\<close> and one character per byte. It
  stands for the real libraries only in what the theorems below assume of them.
\<close>

definition plain_F4Jumble :: "byte list \<Rightarrow> byte list result" where
  "plain_F4Jumble message =
     (if length message < 48 \<or> 4194368 < length message
      then Err (External ''f4jumble: invalid message length'')
      else Ok (rev message))"

definition plain_EncodeM :: "string \<Rightarrow> byte list \<Rightarrow> string result" where
  "plain_EncodeM hrp data = Ok (hrp @ ''1'' @ map (\<lambda>b. char_of (unat b)) data)"

definition plain_Decode :: "string \<Rightarrow> string \<times> byte list \<times> Version \<times> error option" where
  "plain_Decode s =
     (if CHR ''1'' \<in> set s
      then (takeWhile (\<lambda>ch. ch \<noteq> CHR ''1'') s,
            map of_char (drop 1 (dropWhile (\<lambda>ch. ch \<noteq> CHR ''1'') s)), VersionM, None)
      else ([], [], VersionUnknown, Some (External ''bech32: no separator'')))"

definition plain_libs :: libs where
  "plain_libs =
     \<lparr> F4Jumble = plain_F4Jumble, F4JumbleInv = plain_F4Jumble,
       ConvertBits = (\<lambda>data fromBits toBits pad. Ok data),
       EncodeM = plain_EncodeM,
       DecodeNoLimitWithVersion = plain_Decode,
       DecodeGeneric = plain_Decode,
       CheckDecode = (\<lambda>s. ([], 0, Some (External ''base58: invalid format''))) \<rparr>"

text \<open>
  Two bodies followed by the padding of the prefix \<open>u\<close>: an item of typecode
  \<open>0xffffffff\<close> followed by an item of typecode 5, and an item of typecode 6 followed by
  an item of typecode 5. Each item has a payload of 20 bytes.
\<close>

definition sentinel_buffer :: "byte list" where
  "sentinel_buffer =
     [0xFE, 0xFF, 0xFF, 0xFF, 0xFF, 20] @ replicate 20 0xAA
     @ [0x05, 20] @ replicate 20 0xBB
     @ padding ''u''"

definition descending_buffer :: "byte list" where
  "descending_buffer =
     [0x06, 20] @ replicate 20 0xAA
     @ [0x05, 20] @ replicate 20 0xBB
     @ padding ''u''"

text \<open>An address with a Sapling receiver and two unknown items, of typecodes 4 and 5.\<close>

definition two_unknown_address :: UnifiedAddress where
  "two_unknown_address =
     \<lparr> UnifiedAddress.P2pkh = None, UnifiedAddress.P2sh = None,
       UnifiedAddress.Sapling = Some (replicate 43 0x11), UnifiedAddress.Orchard = None,
       Unknown = [4 \<mapsto> [0xAA], 5 \<mapsto> [0xBB]] \<rparr>"

text \<open>
  An address with a Sapling receiver only, the text \<open>EncodeUnified\<close> gives for it under
  the prefix \<open>u\<close> with the small library instance, and the same text with the byte \<open>v\<close>
  in the place of the padding's \<open>u\<close>.
\<close>

definition sapling_only_address :: UnifiedAddress where
  "sapling_only_address =
     \<lparr> UnifiedAddress.P2pkh = None, UnifiedAddress.P2sh = None,
       UnifiedAddress.Sapling = Some (replicate 43 0x11), UnifiedAddress.Orchard = None,
       Unknown = Map.empty \<rparr>"

definition sapling_only_string :: string where
  "sapling_only_string =
     ''u1'' @ replicate 15 (CHR 0x00) @ ''u'' @ replicate 43 (CHR 0x11) @ [CHR 0x2B, CHR 0x02]"

definition mispadded_string :: string where
  "mispadded_string =
     ''u1'' @ replicate 15 (CHR 0x00) @ ''v'' @ replicate 43 (CHR 0x11) @ [CHR 0x2B, CHR 0x02]"

text \<open>
  A text that the small library instance decodes to the prefix \<open>tex\<close> and 20 bytes, and one
  that it decodes to the prefix \<open>ur\<close>.
\<close>

definition tex_string :: string where
  "tex_string = ''tex1'' @ replicate 20 (CHR 0x11)"

definition revision1_string :: string where
  "revision1_string = ''ur1'' @ replicate 20 (CHR 0x11)"

text \<open>
  A prefix of 17 bytes, and the text \<open>EncodeUnified\<close> gives for \<open>sapling_only_address\<close>
  under it with the small library instance.
\<close>

definition long_hrp :: string where
  "long_hrp = ''abcdefghijklmnopq''"

definition long_hrp_string :: string where
  "long_hrp_string =
     ''abcdefghijklmnopq1qponmlkjihgfedcba'' @ replicate 43 (CHR 0x11) @ [CHR 0x2B, CHR 0x02]"

text \<open>An address with a Sapling receiver, an unknown item of typecode 4 and an empty entry.\<close>

definition empty_entry_address :: UnifiedAddress where
  "empty_entry_address =
     \<lparr> UnifiedAddress.P2pkh = None, UnifiedAddress.P2sh = None,
       UnifiedAddress.Sapling = Some (replicate 43 0x11), UnifiedAddress.Orchard = None,
       Unknown = [4 \<mapsto> [0xAA], 7 \<mapsto> []] \<rparr>"

section \<open>Properties of the CompactSize encoding\<close>

lemma binaryWrite_numeral [simp]:
  "binaryWrite (numeral k) n = ucast n # binaryWrite (pred_numeral k) (drop_bit 8 n)"
  by (simp add: numeral_eq_Suc)

lemma length_binaryWrite [simp]: "length (binaryWrite k n) = k"
  by (induction k arbitrary: n) auto

lemma littleEndian_binaryWrite:
  "(littleEndian (binaryWrite k (n :: 'a::len word)) :: 'a word) = take_bit (8 * k) n"
proof (induction k arbitrary: n)
  case 0
  show ?case by simp
next
  case (Suc k)
  show ?case
    by (simp add: Suc, rule bit_word_eqI) (auto simp: bit_simps)
qed

lemma read16: "binaryReadUint16 (binaryWrite 2 (v :: uint16) @ rest) = v"
  unfolding binaryReadUint16_def
  using littleEndian_binaryWrite [of 2 v] take_bit_length_eq [of v]
  by (simp del: binaryWrite_numeral take_bit_length_eq)

lemma read32: "binaryReadUint32 (binaryWrite 4 (v :: uint32) @ rest) = v"
  unfolding binaryReadUint32_def
  using littleEndian_binaryWrite [of 4 v] take_bit_length_eq [of v]
  by (simp del: binaryWrite_numeral take_bit_length_eq)

lemma read64: "binaryReadUint64 (binaryWrite 8 (v :: uint64) @ rest) = v"
  unfolding binaryReadUint64_def
  using littleEndian_binaryWrite [of 8 v] take_bit_length_eq [of v]
  by (simp del: binaryWrite_numeral take_bit_length_eq)

lemma ucast_byte_id: "n < 253 \<Longrightarrow> ucast (ucast (n::uint64) :: byte) = n"
  by (rule word_unat_eq_iff [THEN iffD2])
    (simp add: unsigned_ucast_eq unsigned_take_bit_eq take_bit_nat_eq_self word_less_nat_alt)

lemma ucast_byte_less: "n < 253 \<Longrightarrow> (ucast (n::uint64) :: byte) < 253"
  by (simp add: word_less_nat_alt unsigned_ucast_eq take_bit_eq_mod)

lemma ucast16_id: "n \<le> 0xFFFF \<Longrightarrow> ucast (ucast (n::uint64) :: uint16) = n"
  by (rule word_unat_eq_iff [THEN iffD2])
    (simp add: unsigned_ucast_eq unsigned_take_bit_eq take_bit_nat_eq_self word_le_nat_alt)

lemma ucast32_id: "n \<le> 0xFFFFFFFF \<Longrightarrow> ucast (ucast (n::uint64) :: uint32) = n"
  by (rule word_unat_eq_iff [THEN iffD2])
    (simp add: unsigned_ucast_eq unsigned_take_bit_eq take_bit_nat_eq_self word_le_nat_alt)

lemma ParseCompactSize_WriteCompactSize:
  assumes "WriteCompactSize n True = Ok bs"
  shows "ParseCompactSize (bs @ rest) True = Ok (n, rest)"
proof -
  consider "n < 253" | "\<not> n < 253" "n \<le> 0xFFFF" | "\<not> n \<le> 0xFFFF" "n \<le> 0xFFFFFFFF"
    | "\<not> n \<le> 0xFFFFFFFF"
    by (cases "n < 253"; cases "n \<le> 0xFFFF"; cases "n \<le> 0xFFFFFFFF") auto
  then show ?thesis
  proof cases
    case 1
    then have "bs = [ucast n]" using assms by (simp add: WriteCompactSize_def)
    moreover have "(ucast n :: byte) \<noteq> 253" "(ucast n :: byte) \<noteq> 254" "(ucast n :: byte) \<noteq> 255"
      using ucast_byte_less [OF 1] by auto
    ultimately show ?thesis
      using ucast_byte_id [OF 1] by (simp add: ParseCompactSize_def)
  next
    case 2
    then have "bs = 253 # binaryWrite 2 (ucast n :: uint16)"
      using assms by (simp add: WriteCompactSize_def del: binaryWrite_numeral)
    then show ?thesis
      using ucast16_id [OF 2(2)] read16 [of "ucast n" rest]
      by (simp add: ParseCompactSize_def del: binaryWrite_numeral)
  next
    case 3
    then have "\<not> n < 253" by (simp add: word_le_nat_alt word_less_nat_alt)
    with 3 have "bs = 254 # binaryWrite 4 (ucast n :: uint32)"
      using assms by (simp add: WriteCompactSize_def del: binaryWrite_numeral) 
    then show ?thesis
      using ucast32_id [OF 3(2)] read32 [of "ucast n" rest]
      by (simp add: ParseCompactSize_def del: binaryWrite_numeral)
  next
    case 4
    then have "\<not> n < 253" "\<not> n \<le> 0xFFFF" by (simp_all add: word_le_nat_alt word_less_nat_alt)
    with 4 have "bs = 255 # binaryWrite 8 n"
      using assms by (simp add: WriteCompactSize_def del: binaryWrite_numeral) 
    then show ?thesis
      using read64 [of n rest]
      by (simp add: ParseCompactSize_def del: binaryWrite_numeral)
  qed
qed

lemma little_endian_value_binaryWrite:
  "little_endian_value (binaryWrite k (n :: 'a::len word)) = unat n mod 2 ^ (8 * k)"
proof (induction k arbitrary: n)
  case 0
  show ?case by simp
next
  case (Suc k)
  have "unat n mod (2 ^ 8 * 2 ^ (8 * k)) =
      2 ^ 8 * (unat n div 2 ^ 8 mod 2 ^ (8 * k)) + unat n mod 2 ^ 8"
    by (rule mod_mult2_eq)
  moreover have "unat (ucast n :: byte) = unat n mod 2 ^ 8"
    by (simp add: unsigned_ucast_eq take_bit_eq_mod unsigned_take_bit_eq)
  moreover have "unat (drop_bit 8 n) = unat n div 2 ^ 8"
    unfolding unat_drop_bit_eq by (simp add: drop_bit_eq_div)
  ultimately show ?case
    by (simp add: Suc power_add)
qed

lemma unat_ucast16: "n \<le> 0xFFFF \<Longrightarrow> unat (ucast (n::uint64) :: uint16) = unat n"
  by (simp add: unsigned_ucast_eq take_bit_nat_eq_self word_le_nat_alt)

lemma unat_ucast32: "n \<le> 0xFFFFFFFF \<Longrightarrow> unat (ucast (n::uint64) :: uint32) = unat n"
  by (simp add: unsigned_ucast_eq take_bit_nat_eq_self word_le_nat_alt)

lemma unat_ucast8: "n < 253 \<Longrightarrow> unat (ucast (n::uint64) :: byte) = unat n"
  by (simp add: unsigned_ucast_eq take_bit_nat_eq_self word_less_nat_alt)


text \<open>
  C4. \<open>WriteCompactSize(n, allowOutOfRange)\<close>, when the ceiling check of its first lines
  lets \<open>n\<close> pass (the flag is set, or \<open>n\<close> is at most 33,554,432; the other case is C5),
  returns: the single byte \<open>n\<close> when \<open>n < 253\<close>; the marker \<open>0xFD\<close> and two bytes whose
  little-endian value is \<open>n\<close> when \<open>253 \<le> n \<le> 65535\<close>; the marker \<open>0xFE\<close> and four such
  bytes when \<open>65536 \<le> n \<le> 2^32 - 1\<close>; the marker \<open>0xFF\<close> and eight such bytes when
  \<open>n \<ge> 2^32\<close>. \<open>WriteCompactSize(300, false)\<close> is \<open>[0xFD, 0x2C, 0x01]\<close>, and
  \<open>ParseCompactSize([0xFD, 0x2C, 0x01], false)\<close> is 300 with nothing left over.
\<close>

theorem WriteCompactSize_format:
  assumes "allowOutOfRange \<or> n \<le> 33554432"
  shows "(n < 253 \<longrightarrow>
            WriteCompactSize n allowOutOfRange = Ok [ucast n] \<and> unat (ucast n :: byte) = unat n)
       \<and> (253 \<le> n \<and> n \<le> 65535 \<longrightarrow>
            (\<exists>bs. WriteCompactSize n allowOutOfRange = Ok (0xFD # bs) \<and> length bs = 2
                \<and> little_endian_value bs = unat n))
       \<and> (65536 \<le> n \<and> n \<le> 4294967295 \<longrightarrow>
            (\<exists>bs. WriteCompactSize n allowOutOfRange = Ok (0xFE # bs) \<and> length bs = 4
                \<and> little_endian_value bs = unat n))
       \<and> (4294967296 \<le> n \<longrightarrow>
            (\<exists>bs. WriteCompactSize n allowOutOfRange = Ok (0xFF # bs) \<and> length bs = 8
                \<and> little_endian_value bs = unat n))
       \<and> WriteCompactSize 300 False = Ok [0xFD, 0x2C, 0x01]
       \<and> ParseCompactSize [0xFD, 0x2C, 0x01] False = Ok (300, [])"
proof -
  have pass: "\<not> (\<not> allowOutOfRange \<and> n > maxCompactSize)"
    using assms by (auto simp: maxCompactSize_def)
  have c1: "WriteCompactSize n allowOutOfRange = Ok [ucast n]" if "n < 253"
    using pass that by (simp add: WriteCompactSize_def)
  have c2: "\<exists>bs. WriteCompactSize n allowOutOfRange = Ok (0xFD # bs) \<and> length bs = 2
      \<and> little_endian_value bs = unat n" if "253 \<le> n" "n \<le> 65535"
  proof -
    have "\<not> n < 253" using that by (simp add: word_le_nat_alt word_less_nat_alt)
    then have "WriteCompactSize n allowOutOfRange = Ok (0xFD # binaryWrite 2 (ucast n :: uint16))"
      using pass that by (simp add: WriteCompactSize_def del: binaryWrite_numeral)
    moreover have "little_endian_value (binaryWrite 2 (ucast n :: uint16)) = unat n"
      using that(2) unsigned_less [of "ucast n :: uint16", where 'a = nat]
      by (simp add: little_endian_value_binaryWrite unat_ucast16 del: binaryWrite_numeral)
    ultimately show ?thesis by (simp del: binaryWrite_numeral)
  qed
  have c3: "\<exists>bs. WriteCompactSize n allowOutOfRange = Ok (0xFE # bs) \<and> length bs = 4
      \<and> little_endian_value bs = unat n" if "65536 \<le> n" "n \<le> 4294967295"
  proof -
    have "\<not> n < 253" "\<not> n \<le> 65535"
      using that by (simp_all add: word_le_nat_alt word_less_nat_alt)
    then have "WriteCompactSize n allowOutOfRange = Ok (0xFE # binaryWrite 4 (ucast n :: uint32))"
      using pass that by (simp add: WriteCompactSize_def del: binaryWrite_numeral)
    moreover have "little_endian_value (binaryWrite 4 (ucast n :: uint32)) = unat n"
      using that(2) unsigned_less [of "ucast n :: uint32", where 'a = nat]
      by (simp add: little_endian_value_binaryWrite unat_ucast32 del: binaryWrite_numeral)
    ultimately show ?thesis by (simp del: binaryWrite_numeral)
  qed
  have c4: "\<exists>bs. WriteCompactSize n allowOutOfRange = Ok (0xFF # bs) \<and> length bs = 8
      \<and> little_endian_value bs = unat n" if "4294967296 \<le> n"
  proof -
    have "\<not> n < 253" "\<not> n \<le> 65535" "\<not> n \<le> 4294967295"
      using that by (simp_all add: word_le_nat_alt word_less_nat_alt)
    then have "WriteCompactSize n allowOutOfRange = Ok (0xFF # binaryWrite 8 n)"
      using pass by (simp add: WriteCompactSize_def del: binaryWrite_numeral)
    moreover have "little_endian_value (binaryWrite 8 n) = unat n"
      using unsigned_less [of n, where 'a = nat]
      by (simp add: little_endian_value_binaryWrite del: binaryWrite_numeral)
    ultimately show ?thesis by (simp del: binaryWrite_numeral)
  qed
  have e1: "WriteCompactSize 300 False = Ok [0xFD, 0x2C, 0x01]"
    by (simp add: WriteCompactSize_def maxCompactSize_def)
  have e2: "ParseCompactSize [0xFD, 0x2C, 0x01] False = Ok (300, [])"
    by (simp add: ParseCompactSize_def maxCompactSize_def binaryReadUint16_def)
  show ?thesis
    using c1 c2 c3 c4 e1 e2 unat_ucast8 by blast
qed

theorem WriteCompactSize_format_witness:
  "WriteCompactSize 5 False = Ok [5]
   \<and> (\<exists>bs. WriteCompactSize 65535 False = Ok (0xFD # bs) \<and> length bs = 2
         \<and> little_endian_value bs = 65535)
   \<and> (\<exists>bs. WriteCompactSize 33554432 False = Ok (0xFE # bs) \<and> length bs = 4
         \<and> little_endian_value bs = 33554432)
   \<and> (\<exists>bs. WriteCompactSize 4294967296 True = Ok (0xFF # bs) \<and> length bs = 8
         \<and> little_endian_value bs = 4294967296)"
  using WriteCompactSize_format [of False 5] WriteCompactSize_format [of False 65535]
    WriteCompactSize_format [of False 33554432] WriteCompactSize_format [of True 4294967296]
  by simp


text \<open>
  C5. \<open>WriteCompactSize\<close> returns the range error exactly when \<open>allowOutOfRange\<close> is false
  and \<open>n\<close> is above 33,554,432; \<open>ParseCompactSize\<close> returns the range error exactly when
  \<open>allowOutOfRange\<close> is false and the integer it decodes (what the same call returns with
  the flag set) is above 33,554,432. Neither condition mentions the width thresholds, and
  with the flag set \<open>WriteCompactSize\<close> never fails.
\<close>

theorem compact_size_ceiling:
  "(WriteCompactSize n allowOutOfRange = Err ExceedsMaximumCompactSize)
      = (\<not> allowOutOfRange \<and> n > 33554432)
   \<and> (ParseCompactSize bs allowOutOfRange = Err ExceedsMaximumCompactSize)
      = (\<not> allowOutOfRange \<and>
          (\<exists>v rest. ParseCompactSize bs True = Ok (v, rest) \<and> v > 33554432))
   \<and> (\<exists>out. WriteCompactSize n True = Ok out)"
  by (auto simp: WriteCompactSize_def ParseCompactSize_def maxCompactSize_def Let_def
      split: option.splits if_splits)

theorem compact_size_ceiling_witness:
  "WriteCompactSize 33554432 False = Ok [0xFE, 0x00, 0x00, 0x00, 0x02]
   \<and> WriteCompactSize 33554433 False = Err ExceedsMaximumCompactSize
   \<and> WriteCompactSize 33554433 True = Ok [0xFE, 0x01, 0x00, 0x00, 0x02]
   \<and> ParseCompactSize [0xFE, 0x01, 0x00, 0x00, 0x02] False = Err ExceedsMaximumCompactSize
   \<and> ParseCompactSize [0xFE, 0x01, 0x00, 0x00, 0x02] True = Ok (33554433, [])
   \<and> ParseCompactSize [0xFE, 0x01, 0x00, 0x00] False = Err InvalidCompactSizeEncoding"
  using compact_size_ceiling [of 33554433 False "[0xFE, 0x01, 0x00, 0x00, 0x02]"]
  by (simp add: WriteCompactSize_def ParseCompactSize_def maxCompactSize_def
      binaryReadUint32_def)

section \<open>Properties of the unified address codec\<close>

declare DecodeUnified_items.simps [simp del]

lemma bind_Ok [simp]: "bind (Ok v) f = f v"
  by (simp add: bind_def)

lemma bind_Err [simp]: "bind (Err e) f = Err e"
  by (simp add: bind_def)

lemma bind_Panic [simp]: "bind Panic f = Panic"
  by (simp add: bind_def)

lemma bind_Ok_iff: "bind r f = Ok y \<longleftrightarrow> (\<exists>v. r = Ok v \<and> f v = Ok y)"
  by (cases r) simp_all

lemmas eval_defs = ParseCompactSize_def binaryReadUint16_def binaryReadUint32_def
  binaryReadUint64_def getExpectedLength_def getItemName_def P2PKHItem_def P2SHItem_def
  SaplingItem_def OrchardItem_def NoPreviousItem_def maxCompactSize_def Let_def

lemmas encode_defs = EncodeUnified_def EncodeUnified_rBytes_def appendReceiver_def
  appendItem_def tlv_def WriteCompactSize_def

lemmas plain_defs = plain_libs_def plain_F4Jumble_def plain_EncodeM_def plain_Decode_def

lemma of_char_char_of_unat [simp]: "of_char (char_of (unat (b :: byte))) = b"
proof -
  have "(of_char (char_of (unat b)) :: byte) = of_nat (of_char (char_of (unat b)))"
    by (simp only: of_nat_of_char)
  also have "\<dots> = of_nat (unat b mod 256)"
    by simp
  also have "\<dots> = b"
    using unsigned_less [of b, where 'a = nat] by simp
  finally show ?thesis .
qed

lemma of_char_char_of_nat [simp]: "(of_char (char_of (n::nat)) :: byte) = of_nat n"
proof -
  have "(of_char (char_of n) :: byte) = of_nat (of_char (char_of n))"
    by (simp only: of_nat_of_char)
  also have "\<dots> = of_nat (n mod 256)"
    by simp
  also have "\<dots> = of_nat n"
    by (simp add: word_unat_eq_iff unat_of_nat)
  finally show ?thesis .
qed

lemma padding_u: "padding ''u'' = 0x75 # replicate 15 0"
  by (simp add: padding_def bytes_of_string_def)

lemma padding_eq: "padding hrp = bytes_of_string hrp @ replicate (16 - length hrp) 0"
  by (simp add: padding_def bytes_of_string_def Let_def nat_diff_distrib')

lemma length_padding_short: "length hrp \<le> 16 \<Longrightarrow> length (padding hrp) = 16"
  by (simp add: padding_def bytes_of_string_def Let_def)

lemma length_padding_long: "16 < length hrp \<Longrightarrow> length (padding hrp) = length hrp"
  by (simp add: padding_def bytes_of_string_def Let_def)

lemma EncodeUnified_rBytes_padding:
  "EncodeUnified_rBytes addr hrp keys = Ok rBytes \<Longrightarrow> \<exists>items. rBytes = items @ padding hrp"
  by (auto simp: EncodeUnified_rBytes_def bind_Ok_iff split: if_splits)

lemma sint_le_unat: "sint (w :: uint64) \<le> int (unat w)"
proof -
  have "(0::int) \<le> uint w"
    by simp
  then have "- 9223372036854775808 \<le> uint w"
    by linarith
  then show ?thesis
    by (simp add: sint_uint signed_take_bit_int_less_eq_self_iff)
qed

lemma DecodeUnified_items_Nil [simp]: "DecodeUnified_items [] receivers prevType = Ok receivers"
  by (simp add: DecodeUnified_items.simps)

lemma ParseCompactSize_nonempty: "ParseCompactSize rest a = Ok (n, r) \<Longrightarrow> rest \<noteq> []"
  by (auto simp: ParseCompactSize_def)

text \<open>One turn of the loop, once the typecode and the length have been read.\<close>

lemma DecodeUnified_items_step:
  assumes "ParseCompactSize rest True = Ok (itemType, r1)"
    and "ParseCompactSize r1 True = Ok (itemLen, r2)"
  shows "DecodeUnified_items rest receivers prevType =
     (if getExpectedLength itemType > 0 \<and> itemLen \<noteq> getExpectedLength itemType
      then Err (IncorrectItemLength itemType)
      else if int (length r2) < sint itemLen then Err (InsufficientData itemType)
      else if length r2 < unat itemLen then Panic
      else if receivers itemType \<noteq> None then Err (DuplicateItem (getItemName itemType))
      else if prevType \<noteq> NoPreviousItem \<and> itemType \<le> prevType then Err ItemsOutOfOrder
      else DecodeUnified_items (drop (unat itemLen) r2)
             (receivers(itemType \<mapsto> take (unat itemLen) r2)) itemType)"
  using assms ParseCompactSize_nonempty [OF assms(1)]
  by (subst DecodeUnified_items.simps) simp

lemma getExpectedLength_cases:
  "getExpectedLength t = (if t = 0 \<or> t = 1 then 20 else if t = 2 \<or> t = 3 then 43 else 0)"
  by (simp add: getExpectedLength_def P2PKHItem_def P2SHItem_def SaplingItem_def OrchardItem_def)

text \<open>The loop reports a wrong length only for a typecode that has an expected length.\<close>

lemma length_error_known:
  "DecodeUnified_items rest receivers prevType = Err (IncorrectItemLength t)
    \<Longrightarrow> getExpectedLength t > 0"
proof (induction rest receivers prevType rule: DecodeUnified_items.induct)
  case (1 rest receivers prevType)
  from "1.prems" show ?case
    apply (subst (asm) DecodeUnified_items.simps)
    apply (simp split: if_splits result.splits prod.splits)
    using "1.IH" apply blast
    done
qed

text \<open>
  C6. Whenever the loop of \<open>DecodeUnified\<close> has read the typecode and the declared length
  of an item (in any state of the pass), a typecode \<open>0x00\<close> or \<open>0x01\<close> with a length other
  than 20 and a typecode \<open>0x02\<close> or \<open>0x03\<close> with a length other than 43 end the decoding
  with the length error for that typecode. An item of any other typecode never yields the
  length error, and is accepted whatever its length: when the declared bytes are there, the
  typecode is new and the order is kept, the loop stores the payload and goes on.
\<close>

theorem known_item_length_checked:
  assumes "ParseCompactSize rest True = Ok (itemType, r1)"
    and "ParseCompactSize r1 True = Ok (itemLen, r2)"
  shows "(itemType \<in> {0x00, 0x01} \<and> itemLen \<noteq> 20 \<longrightarrow>
            DecodeUnified_items rest receivers prevType = Err (IncorrectItemLength itemType))
       \<and> (itemType \<in> {0x02, 0x03} \<and> itemLen \<noteq> 43 \<longrightarrow>
            DecodeUnified_items rest receivers prevType = Err (IncorrectItemLength itemType))
       \<and> (itemType \<notin> {0x00, 0x01, 0x02, 0x03} \<longrightarrow>
            DecodeUnified_items rest receivers prevType \<noteq> Err (IncorrectItemLength itemType))
       \<and> (itemType \<notin> {0x00, 0x01, 0x02, 0x03} \<and> unat itemLen \<le> length r2
            \<and> receivers itemType = None \<and> (prevType = NoPreviousItem \<or> prevType < itemType) \<longrightarrow>
            DecodeUnified_items rest receivers prevType =
              DecodeUnified_items (drop (unat itemLen) r2)
                (receivers(itemType \<mapsto> take (unat itemLen) r2)) itemType)"
proof -
  note step = DecodeUnified_items_step [OF assms, of receivers prevType]
  have known: "DecodeUnified_items rest receivers prevType = Err (IncorrectItemLength itemType)"
    if "getExpectedLength itemType \<noteq> 0" and "itemLen \<noteq> getExpectedLength itemType"
    using that step by (simp add: word_greater_zero_iff)
  have unknown: "DecodeUnified_items rest receivers prevType \<noteq> Err (IncorrectItemLength itemType)"
    if "getExpectedLength itemType = 0"
    using that length_error_known [of rest receivers prevType itemType] by auto
  have accepted: "DecodeUnified_items rest receivers prevType =
      DecodeUnified_items (drop (unat itemLen) r2)
        (receivers(itemType \<mapsto> take (unat itemLen) r2)) itemType"
    if "getExpectedLength itemType = 0" and "unat itemLen \<le> length r2"
      and "receivers itemType = None" and "prevType = NoPreviousItem \<or> prevType < itemType"
  proof -
    have "\<not> int (length r2) < sint itemLen"
      using that(2) sint_le_unat [of itemLen] by linarith
    then show ?thesis
      using that step by (auto simp: not_le)
  qed
  show ?thesis
    using known unknown accepted by (auto simp: getExpectedLength_cases)
qed

theorem known_item_length_checked_witness:
  "DecodeUnified_items ([0x00, 19] @ replicate 19 0x11) Map.empty NoPreviousItem =
     Err (IncorrectItemLength 0)
   \<and> DecodeUnified_items ([0x03, 44] @ replicate 44 0x11) [2 \<mapsto> replicate 43 0x22] 2 =
     Err (IncorrectItemLength 3)
   \<and> DecodeUnified_items [0x07, 0] Map.empty NoPreviousItem = Ok [7 \<mapsto> []]
   \<and> DecodeUnified_items [0x07, 3, 1, 2, 3] [2 \<mapsto> replicate 43 0x22] 2 =
     Ok [2 \<mapsto> replicate 43 0x22, 7 \<mapsto> [1, 2, 3]]"
  using known_item_length_checked [of "[0x00, 19] @ replicate 19 0x11" 0
      "[19] @ replicate 19 0x11" 19 "replicate 19 0x11" Map.empty NoPreviousItem]
    known_item_length_checked [of "[0x03, 44] @ replicate 44 0x11" 3
      "[44] @ replicate 44 0x11" 44 "replicate 44 0x11" "[2 \<mapsto> replicate 43 0x22]" 2]
    known_item_length_checked [of "[0x07, 0]" 7 "[0]" 0 "[]" Map.empty NoPreviousItem]
    known_item_length_checked [of "[0x07, 3, 1, 2, 3]" 7 "[3, 1, 2, 3]" 3 "[1, 2, 3]"
      "[2 \<mapsto> replicate 43 0x22]" 2]
  by (simp add: eval_defs)

text \<open>
  C7. When \<open>DecodeUnified\<close> reaches the padding check (the text decoding gave the expected
  prefix, the data has at least 48 groups, and \<open>F4JumbleInv\<close> returned a buffer \<open>decoded\<close> of
  at least 16 bytes), it fails with the padding error unless the last 16 bytes of \<open>decoded\<close>
  are the bytes of the expected prefix followed by zeros up to 16 bytes; when they are,
  the items are decoded from the bytes before the last 16. The bytes \<open>EncodeUnified\<close> hands
  to \<open>F4Jumble\<close> end with the bytes so derived from its prefix, which are 16 bytes when the
  prefix has at most 16.
\<close>

theorem DecodeUnified_padding_check:
  assumes "DecodeNoLimitWithVersion c encoded = (expectedHrp, data, VersionM, None)"
    and "48 \<le> length data"
    and "ConvertBits c data 5 8 False = Ok convertedBits"
    and "F4JumbleInv c convertedBits = Ok decoded"
    and "16 \<le> length decoded"
  shows "(drop (length decoded - 16) decoded \<noteq>
            bytes_of_string expectedHrp @ replicate (16 - length expectedHrp) 0 \<longrightarrow>
           DecodeUnified c encoded expectedHrp = Err InvalidTrailingPadding)
       \<and> (drop (length decoded - 16) decoded =
            bytes_of_string expectedHrp @ replicate (16 - length expectedHrp) 0 \<longrightarrow>
           DecodeUnified c encoded expectedHrp =
             bind (DecodeUnified_items (take (length decoded - 16) decoded) Map.empty NoPreviousItem)
               (\<lambda>receivers. Ok (DecodeUnified_result receivers)))
       \<and> (EncodeUnified_rBytes addr hrp keys = Ok rBytes \<longrightarrow>
            (\<exists>items. rBytes = items @ bytes_of_string hrp @ replicate (16 - length hrp) 0))
       \<and> (length hrp \<le> 16 \<longrightarrow>
            length (bytes_of_string hrp @ replicate (16 - length hrp) 0) = 16)"
proof -
  have run: "DecodeUnified c encoded expectedHrp = DecodeUnified_decoded decoded expectedHrp"
    using assms by (simp add: DecodeUnified_def)
  have check: "DecodeUnified_decoded decoded expectedHrp =
      (if drop (length decoded - 16) decoded \<noteq>
            bytes_of_string expectedHrp @ replicate (16 - length expectedHrp) 0
       then Err InvalidTrailingPadding
       else bind (DecodeUnified_items (take (length decoded - 16) decoded) Map.empty NoPreviousItem)
               (\<lambda>receivers. Ok (DecodeUnified_result receivers)))"
    using assms(5) by (simp add: DecodeUnified_decoded_def Let_def padding_eq)
  have appended: "\<exists>items. rBytes = items @ bytes_of_string hrp @ replicate (16 - length hrp) 0"
    if "EncodeUnified_rBytes addr hrp keys = Ok rBytes"
    using EncodeUnified_rBytes_padding [OF that] by (simp add: padding_eq)
  have sixteen: "length (bytes_of_string hrp @ replicate (16 - length hrp) 0) = 16"
    if "length hrp \<le> 16"
    using that by (simp add: bytes_of_string_def)
  show ?thesis
    using run check appended sixteen by simp
qed

theorem DecodeUnified_padding_check_witness:
  "DecodeUnified plain_libs mispadded_string ''u'' = Err InvalidTrailingPadding
   \<and> DecodeUnified plain_libs sapling_only_string ''u'' =
       Ok (DecodeUnified_result [2 \<mapsto> replicate 43 0x11])
   \<and> EncodeUnified_rBytes sapling_only_address ''u'' [] =
       Ok ([0x02, 43] @ replicate 43 0x11 @ [0x75] @ replicate 15 0)"
proof -
  let ?bad = "replicate 15 0 @ [0x76] @ replicate 43 0x11 @ [43, 2] :: byte list"
  let ?good = "replicate 15 0 @ [0x75] @ replicate 43 0x11 @ [43, 2] :: byte list"
  have text_bad: "DecodeNoLimitWithVersion plain_libs mispadded_string = (''u'', ?bad, VersionM, None)"
    by (simp add: plain_defs mispadded_string_def)
  have text_good:
    "DecodeNoLimitWithVersion plain_libs sapling_only_string = (''u'', ?good, VersionM, None)"
    by (simp add: plain_defs sapling_only_string_def)
  have bits: "ConvertBits plain_libs ?bad 5 8 False = Ok ?bad"
    "ConvertBits plain_libs ?good 5 8 False = Ok ?good"
    by (simp_all add: plain_defs)
  have inv: "F4JumbleInv plain_libs ?bad = Ok (rev ?bad)"
    "F4JumbleInv plain_libs ?good = Ok (rev ?good)"
    by (simp_all add: plain_defs)
  have encoded: "EncodeUnified_rBytes sapling_only_address ''u'' [] =
      Ok ([0x02, 43] @ replicate 43 0x11 @ [0x75] @ replicate 15 0)"
    by (simp add: sapling_only_address_def encode_defs eval_defs padding_u)
  have items: "DecodeUnified_items ([0x02, 43] @ replicate 43 0x11) Map.empty NoPreviousItem =
      Ok [2 \<mapsto> replicate 43 0x11]"
    by (simp add: DecodeUnified_items.simps eval_defs)
  from DecodeUnified_padding_check [OF text_bad _ bits(1) inv(1), where hrp = "''u''"
      and addr = sapling_only_address and keys = "[]"
      and rBytes = "[0x02, 43] @ replicate 43 0x11 @ [0x75] @ replicate 15 0"]
  have bad: "DecodeUnified plain_libs mispadded_string ''u'' = Err InvalidTrailingPadding"
    by (simp add: bytes_of_string_def)
  from DecodeUnified_padding_check [OF text_good _ bits(2) inv(2), where hrp = "''u''"
      and addr = sapling_only_address and keys = "[]"
      and rBytes = "[0x02, 43] @ replicate 43 0x11 @ [0x75] @ replicate 15 0"] items
  have good: "DecodeUnified plain_libs sapling_only_string ''u'' =
      Ok (DecodeUnified_result [2 \<mapsto> replicate 43 0x11])"
    by (simp add: bytes_of_string_def)
  show ?thesis
    using bad good encoded by simp
qed


text \<open>
  C3. The buffer \<open>sentinel_buffer\<close> holds an item of typecode \<open>0xffffffff\<close> followed by
  an item of typecode 5 and the padding of the prefix \<open>u\<close>. The second typecode is not
  greater than the first, and the decoding succeeds with both items: after an item of
  typecode \<open>0xffffffff\<close> the variable \<open>prevType\<close> equals \<open>NoPreviousItem\<close>, and the order
  check is skipped for the next item as it is for the first. The same two items with
  typecodes 6 and 5 are refused as out of order.
\<close>

theorem sentinel_typecode_skips_order_check:
  "DecodeUnified_decoded sentinel_buffer ''u'' =
     Ok (DecodeUnified_result [0xffffffff \<mapsto> replicate 20 0xAA, 5 \<mapsto> replicate 20 0xBB])
   \<and> DecodeUnified_decoded descending_buffer ''u'' = Err ItemsOutOfOrder"
  by (simp add: DecodeUnified_decoded_def sentinel_buffer_def descending_buffer_def padding_u
      DecodeUnified_items.simps eval_defs)

text \<open>
  C2. For the address \<open>two_unknown_address\<close> (unknown items of typecodes 4 and 5) both
  \<open>[5, 4]\<close> and \<open>[4, 5]\<close> are orders in which \<open>range\<close> may visit the map. \<open>EncodeUnified\<close>
  emits the unknown items in the order of the visit: typecode 5 before typecode 4 in the
  first case, so the output is neither ascending nor the same for every run, and
  \<open>DecodeUnified\<close> refuses these bytes as out of order.
\<close>

theorem unknown_items_in_iteration_order:
  "iteration_order (Unknown two_unknown_address) [5, 4]
   \<and> EncodeUnified_rBytes two_unknown_address ''u'' [5, 4] =
       Ok ([0x02, 43] @ replicate 43 0x11 @ [0x05, 1, 0xBB] @ [0x04, 1, 0xAA] @ padding ''u'')
   \<and> iteration_order (Unknown two_unknown_address) [4, 5]
   \<and> EncodeUnified_rBytes two_unknown_address ''u'' [4, 5] =
       Ok ([0x02, 43] @ replicate 43 0x11 @ [0x04, 1, 0xAA] @ [0x05, 1, 0xBB] @ padding ''u'')
   \<and> DecodeUnified_decoded
         ([0x02, 43] @ replicate 43 0x11 @ [0x05, 1, 0xBB] @ [0x04, 1, 0xAA] @ padding ''u'') ''u'' =
       Err ItemsOutOfOrder"
proof -
  have order: "iteration_order (Unknown two_unknown_address) [5, 4]"
    "iteration_order (Unknown two_unknown_address) [4, 5]"
    by (auto simp: iteration_order_def two_unknown_address_def)
  have emitted: "EncodeUnified_rBytes two_unknown_address ''u'' [5, 4] =
      Ok ([0x02, 43] @ replicate 43 0x11 @ [0x05, 1, 0xBB] @ [0x04, 1, 0xAA] @ padding ''u'')"
    "EncodeUnified_rBytes two_unknown_address ''u'' [4, 5] =
      Ok ([0x02, 43] @ replicate 43 0x11 @ [0x04, 1, 0xAA] @ [0x05, 1, 0xBB] @ padding ''u'')"
    by (simp_all add: two_unknown_address_def encode_defs eval_defs padding_u)
  have refused: "DecodeUnified_decoded
      ([0x02, 43] @ replicate 43 0x11 @ [0x05, 1, 0xBB] @ [0x04, 1, 0xAA] @ padding ''u'') ''u'' =
      Err ItemsOutOfOrder"
    by (simp add: DecodeUnified_decoded_def padding_u DecodeUnified_items.simps eval_defs)
  show ?thesis
    using order emitted refused by simp
qed

text \<open>
  With the small library instance in place of the imported functions, the whole of
  \<open>EncodeUnified\<close> followed by \<open>DecodeUnified\<close> fails on this address when the map is
  visited in the order 5, 4.
\<close>

lemma two_unknown_round_trip_fails:
  "bind (EncodeUnified plain_libs two_unknown_address ''u'' [5, 4])
     (\<lambda>encoded. DecodeUnified plain_libs encoded ''u'') = Err ItemsOutOfOrder"
  apply (simp add: two_unknown_address_def encode_defs eval_defs padding_u plain_defs)
  apply (simp add: DecodeUnified_def plain_defs)
  apply (simp add: DecodeUnified_decoded_def padding_u DecodeUnified_items.simps eval_defs)
  done

section \<open>Properties of the dispatcher\<close>

lemma errors_Join_last: "\<exists>joined. errors_Join [a, b, Some e] = Some joined"
  by (cases a; cases b) (simp_all add: errors_Join_def)

lemma non_nil_fields_zero [simp]: "non_nil_fields zeroZcashAddress = 0"
  by (simp add: non_nil_fields_def zeroZcashAddress_def)

lemma non_nil_fields_one [simp]:
  "non_nil_fields (zeroZcashAddress\<lparr>ZcashAddress.P2pkh := Some v\<rparr>) = 1"
  "non_nil_fields (zeroZcashAddress\<lparr>ZcashAddress.P2sh := Some v\<rparr>) = 1"
  "non_nil_fields (zeroZcashAddress\<lparr>ZcashAddress.Sapling := Some v\<rparr>) = 1"
  "non_nil_fields (zeroZcashAddress\<lparr>Unified := Some u\<rparr>) = 1"
  "non_nil_fields (zeroZcashAddress\<lparr>Tex := Some v\<rparr>) = 1"
  by (simp_all add: non_nil_fields_def zeroZcashAddress_def)

lemma DecodeAddress_unified_returns:
  "DecodeAddress_unified c address network e1 e2 = Returns (z, err) \<Longrightarrow> one_or_error z err"
  by (auto simp: DecodeAddress_unified_def one_or_error_def Let_def errors_Join_last
      split: result.splits)

lemma DecodeAddress_bech32_returns:
  "DecodeAddress_bech32 c address network e1 = Returns (z, err) \<Longrightarrow> one_or_error z err"
  unfolding DecodeAddress_bech32_def Let_def
  by (auto split: prod.splits if_splits result.splits
      dest: DecodeAddress_unified_returns simp: one_or_error_def)

lemma DecodeAddress_returns:
  "DecodeAddress c address network = Returns (z, err) \<Longrightarrow> one_or_error z err"
  unfolding DecodeAddress_def Let_def
  by (auto split: prod.splits if_splits
      dest: DecodeAddress_bech32_returns simp: one_or_error_def)


text \<open>
  C10. A \<open>ZcashAddress\<close> returned by \<open>DecodeAddress\<close> has at most one field that is not
  nil; beside an error all five fields are nil, and beside no error exactly one is set.
\<close>

theorem DecodeAddress_at_most_one_field:
  assumes "DecodeAddress c address network = Returns (result, err)"
  shows "non_nil_fields result \<le> 1
       \<and> (err \<noteq> None \<longrightarrow>
            ZcashAddress.P2pkh result = None \<and> ZcashAddress.P2sh result = None
            \<and> ZcashAddress.Sapling result = None \<and> Unified result = None
            \<and> Tex result = None)
       \<and> (err = None \<longrightarrow> non_nil_fields result = 1)"
proof -
  have "one_or_error result err"
    using assms by (rule DecodeAddress_returns)
  then consider "err = None" and "non_nil_fields result = 1"
    | "err \<noteq> None" and "result = zeroZcashAddress"
    unfolding one_or_error_def by blast
  then show ?thesis
  proof cases
    case 1
    then show ?thesis by simp
  next
    case 2
    then show ?thesis by (simp add: zeroZcashAddress_def non_nil_fields_def)
  qed
qed

lemma DecodeAddress_tex_string:
  "DecodeAddress plain_libs tex_string Mainnet =
     Returns (zeroZcashAddress\<lparr>Tex := Some (replicate 20 0x11)\<rparr>, None)"
  by (simp add: DecodeAddress_def DecodeAddress_bech32_def plain_defs tex_string_def
      Mainnet_def copyArray_def)

lemma DecodeAddress_revision1_string:
  "DecodeAddress plain_libs revision1_string Mainnet =
     Returns (zeroZcashAddress, Some UnifiedR1Unsupported)"
  by (simp add: DecodeAddress_def DecodeAddress_bech32_def plain_defs revision1_string_def
      Mainnet_def)

theorem DecodeAddress_at_most_one_field_witness:
  "DecodeAddress plain_libs tex_string Mainnet =
     Returns (zeroZcashAddress\<lparr>Tex := Some (replicate 20 0x11)\<rparr>, None)
   \<and> non_nil_fields (zeroZcashAddress\<lparr>Tex := Some (replicate 20 0x11)\<rparr>) = 1
   \<and> DecodeAddress plain_libs revision1_string Mainnet =
     Returns (zeroZcashAddress, Some UnifiedR1Unsupported)
   \<and> non_nil_fields zeroZcashAddress = 0"
  using DecodeAddress_at_most_one_field [OF DecodeAddress_tex_string]
    DecodeAddress_at_most_one_field [OF DecodeAddress_revision1_string]
    DecodeAddress_tex_string DecodeAddress_revision1_string
  by simp

text \<open>
  C8, as the claim states it, fails for \<open>DecodeP2pkh\<close>, which has a third argument
  \<open>allowTex\<close>: the text \<open>tex_string\<close> decodes to a TEX address, with no \<open>P2pkh\<close> field and no
  unified address, and \<open>DecodeP2pkh\<close> with \<open>allowTex\<close> set returns the TEX payload and not
  \<open>(nil, nil)\<close>, while with \<open>allowTex\<close> unset it returns \<open>(nil, nil)\<close> for the same address.
\<close>

theorem DecodeP2pkh_returns_tex_payload:
  "DecodeAddress plain_libs tex_string Mainnet =
     Returns (\<lparr> ZcashAddress.P2pkh = None, ZcashAddress.P2sh = None,
       ZcashAddress.Sapling = None, Unified = None, Tex = Some (replicate 20 0x11) \<rparr>, None)
   \<and> DecodeP2pkh plain_libs tex_string Mainnet True = Returns (Some (replicate 20 0x11), None)
   \<and> DecodeP2pkh plain_libs tex_string Mainnet False = Returns (None, None)"
  using DecodeAddress_tex_string
  by (simp add: DecodeP2pkh_def zeroZcashAddress_def)

text \<open>
  C8, amended. When \<open>DecodeAddress\<close> returns an error, every accessor returns no value and
  that error. When it returns an address and no error, \<open>DecodeP2sh\<close> and \<open>DecodeSapling\<close>
  return the field of their name when it is set, otherwise the receiver of that name of
  the unified address when there is one, otherwise \<open>(nil, nil)\<close>; \<open>DecodeOrchard\<close> returns
  the Orchard receiver of the unified address when there is one, otherwise \<open>(nil, nil)\<close>;
  \<open>DecodeP2pkh\<close> does as \<open>DecodeP2sh\<close> for its field, except that for an address with no
  \<open>P2pkh\<close> field and no unified address it returns the \<open>Tex\<close> field when \<open>allowTex\<close> is set
  (and \<open>(nil, nil)\<close> when \<open>allowTex\<close> is not set).
\<close>

theorem accessors_project_decoded_address:
  assumes "DecodeAddress c address network = Returns (decoded, err)"
  shows "(err \<noteq> None \<longrightarrow>
            DecodeP2pkh c address network allowTex = Returns (None, err)
            \<and> DecodeP2sh c address network = Returns (None, err)
            \<and> DecodeSapling c address network = Returns (None, err)
            \<and> DecodeOrchard c address network = Returns (None, err))
       \<and> (err = None \<longrightarrow>
            DecodeP2pkh c address network allowTex =
              Returns (case ZcashAddress.P2pkh decoded of
                         Some hash \<Rightarrow> Some hash
                       | None \<Rightarrow>
                           (case Unified decoded of
                              Some unified \<Rightarrow> UnifiedAddress.P2pkh unified
                            | None \<Rightarrow> if allowTex then Tex decoded else None), None)
            \<and> DecodeP2sh c address network =
              Returns (case ZcashAddress.P2sh decoded of
                         Some hash \<Rightarrow> Some hash
                       | None \<Rightarrow>
                           (case Unified decoded of
                              Some unified \<Rightarrow> UnifiedAddress.P2sh unified
                            | None \<Rightarrow> None), None)
            \<and> DecodeSapling c address network =
              Returns (case ZcashAddress.Sapling decoded of
                         Some receiver \<Rightarrow> Some receiver
                       | None \<Rightarrow>
                           (case Unified decoded of
                              Some unified \<Rightarrow> UnifiedAddress.Sapling unified
                            | None \<Rightarrow> None), None)
            \<and> DecodeOrchard c address network =
              Returns (case Unified decoded of
                         Some unified \<Rightarrow> UnifiedAddress.Orchard unified
                       | None \<Rightarrow> None, None))"
  using assms
  by (auto simp: DecodeP2pkh_def DecodeP2sh_def DecodeSapling_def DecodeOrchard_def
      split: option.splits)

theorem accessors_project_decoded_address_witness:
  "DecodeP2pkh plain_libs tex_string Mainnet True = Returns (Some (replicate 20 0x11), None)
   \<and> DecodeP2pkh plain_libs tex_string Mainnet False = Returns (None, None)
   \<and> DecodeP2sh plain_libs tex_string Mainnet = Returns (None, None)
   \<and> DecodeSapling plain_libs tex_string Mainnet = Returns (None, None)
   \<and> DecodeOrchard plain_libs tex_string Mainnet = Returns (None, None)
   \<and> DecodeP2pkh plain_libs revision1_string Mainnet True =
       Returns (None, Some UnifiedR1Unsupported)
   \<and> DecodeOrchard plain_libs revision1_string Mainnet =
       Returns (None, Some UnifiedR1Unsupported)"
  using accessors_project_decoded_address [OF DecodeAddress_tex_string, of True]
    accessors_project_decoded_address [OF DecodeAddress_tex_string, of False]
    accessors_project_decoded_address [OF DecodeAddress_revision1_string, of True]
  by (simp add: zeroZcashAddress_def)

section \<open>Encoding followed by decoding\<close>

lemma WriteCompactSize_compact: "WriteCompactSize n True = Ok (compact n)"
  by (simp add: compact_def WriteCompactSize_def)

lemma ParseCompactSize_compact: "ParseCompactSize (compact n @ rest) True = Ok (n, rest)"
  using ParseCompactSize_WriteCompactSize [OF WriteCompactSize_compact] .

lemma tlv_item_bytes: "tlv typecode val = Ok (item_bytes (typecode, val))"
  by (simp add: tlv_def WriteCompactSize_compact item_bytes_def)

lemma appendItem_item_bytes:
  "appendItem typecode val encodedItems = Ok (encodedItems @ [item_bytes (typecode, val)])"
  by (simp add: appendItem_def tlv_item_bytes)

lemma appendReceiver_items:
  "appendReceiver typecode field encodedItems =
     Ok (encodedItems @ map item_bytes (receiver_item typecode field))"
  by (cases field) (simp_all add: appendReceiver_def receiver_item_def appendItem_item_bytes)

lemma appendUnknown_items:
  "appendUnknown unknown keys encodedItems =
     Ok (encodedItems @ map item_bytes (unknown_items unknown keys))"
proof (induction keys arbitrary: encodedItems)
  case Nil
  show ?case by (simp add: unknown_items_def)
next
  case (Cons k keys)
  show ?case
  proof (cases "unknown k")
    case None
    then show ?thesis
      using Cons.IH [of encodedItems] by (simp add: unknown_items_def)
  next
    case (Some item)
    show ?thesis
    proof (cases "length item > 0")
      case True
      then show ?thesis
        using Some Cons.IH [of "encodedItems @ [item_bytes (k, item)]"]
        by (simp add: unknown_items_def appendItem_item_bytes)
    next
      case False
      then show ?thesis
        using Some Cons.IH [of encodedItems] by (simp add: unknown_items_def)
    qed
  qed
qed

text \<open>The bytes handed to \<open>F4Jumble\<close>: the emitted items, then the padding.\<close>

lemma EncodeUnified_rBytes_items:
  "EncodeUnified_rBytes addr hrp keys =
     (if UnifiedAddress.P2pkh addr \<noteq> None \<and> UnifiedAddress.P2sh addr \<noteq> None
      then Err BothP2PKHAndP2SH
      else Ok (concat (map item_bytes (emitted_items addr keys)) @ padding hrp))"
  by (simp add: EncodeUnified_rBytes_def appendReceiver_items appendUnknown_items
      emitted_items_def)

text \<open>One turn of the loop on the bytes of an item.\<close>

lemma DecodeUnified_items_item_bytes:
  assumes "length val < 2 ^ 64"
  shows "DecodeUnified_items (item_bytes (typecode, val) @ rest) receivers prevType =
     (if getExpectedLength typecode > 0 \<and> of_nat (length val) \<noteq> getExpectedLength typecode
      then Err (IncorrectItemLength typecode)
      else if receivers typecode \<noteq> None then Err (DuplicateItem (getItemName typecode))
      else if prevType \<noteq> NoPreviousItem \<and> typecode \<le> prevType then Err ItemsOutOfOrder
      else DecodeUnified_items rest (receivers(typecode \<mapsto> val)) typecode)"
proof -
  let ?len = "of_nat (length val) :: uint64"
  have unat: "unat ?len = length val"
    using assms by (simp add: unat_of_nat)
  have p1: "ParseCompactSize (item_bytes (typecode, val) @ rest) True =
      Ok (typecode, compact ?len @ val @ rest)"
    using ParseCompactSize_compact [of typecode "compact ?len @ val @ rest"]
    by (simp add: item_bytes_def)
  have p2: "ParseCompactSize (compact ?len @ val @ rest) True = Ok (?len, val @ rest)"
    by (rule ParseCompactSize_compact)
  have enough: "\<not> int (length (val @ rest)) < sint ?len"
    using sint_le_unat [of ?len] unat by simp
  show ?thesis
    using DecodeUnified_items_step [OF p1 p2, of receivers prevType] enough unat
    by simp
qed


text \<open>The loop on the bytes of items with ascending typecodes and admissible lengths.\<close>

lemma DecodeUnified_items_ascending:
  assumes "sorted_wrt (<) (map fst items)"
    and "\<forall>(t, v) \<in> set items. length v < 2 ^ 64
           \<and> (getExpectedLength t > 0 \<longrightarrow> of_nat (length v) = getExpectedLength t)"
    and "\<forall>t \<in> fst ` set items. receivers t = None"
    and "prevType = NoPreviousItem \<or> (\<forall>t \<in> fst ` set items. prevType < t)"
  shows "DecodeUnified_items (concat (map item_bytes items)) receivers prevType =
     Ok (receivers ++ map_of items)"
  using assms
proof (induction items arbitrary: receivers prevType)
  case Nil
  show ?case by simp
next
  case (Cons item items)
  obtain t v where item: "item = (t, v)"
    by (cases item)
  have len: "length v < 2 ^ 64"
    and expected: "getExpectedLength t > 0 \<longrightarrow> of_nat (length v) = getExpectedLength t"
    using Cons.prems(2) item by auto
  have fresh: "receivers t = None"
    using Cons.prems(3) item by simp
  have order: "\<not> (prevType \<noteq> NoPreviousItem \<and> t \<le> prevType)"
    using Cons.prems(4) item by (auto simp: not_le)
  have later: "\<forall>t' \<in> fst ` set items. t < t'"
    using Cons.prems(1) item by auto
  then have absent: "t \<notin> fst ` set items"
    by auto
  have step: "DecodeUnified_items (concat (map item_bytes (item # items))) receivers prevType =
      DecodeUnified_items (concat (map item_bytes items)) (receivers(t \<mapsto> v)) t"
    using DecodeUnified_items_item_bytes [OF len, of t "concat (map item_bytes items)"
        receivers prevType] expected fresh order item
    by auto
  have rest: "DecodeUnified_items (concat (map item_bytes items)) (receivers(t \<mapsto> v)) t =
      Ok (receivers(t \<mapsto> v) ++ map_of items)"
  proof (rule Cons.IH)
    show "sorted_wrt (<) (map fst items)"
      using Cons.prems(1) by simp
    show "\<forall>(t, v) \<in> set items. length v < 2 ^ 64
        \<and> (getExpectedLength t > 0 \<longrightarrow> of_nat (length v) = getExpectedLength t)"
      using Cons.prems(2) by simp
    show "\<forall>t' \<in> fst ` set items. (receivers(t \<mapsto> v)) t' = None"
      using Cons.prems(3) absent by auto
    show "t = NoPreviousItem \<or> (\<forall>t' \<in> fst ` set items. t < t')"
      using later by simp
  qed
  have maps: "receivers(t \<mapsto> v) ++ map_of items = receivers ++ map_of (item # items)"
  proof -
    have "t \<notin> dom (map_of items)"
      using absent by (simp add: dom_map_of_conv_image_fst)
    then show ?thesis
      using item by (simp add: map_add_upd_left)
  qed
  show ?case
    by (simp only: step rest maps)
qed

lemma map_of_receiver_item:
  "map_of (receiver_item typecode field) k = (if k = typecode then field else None)"
  by (cases field) (simp_all add: receiver_item_def)

lemma fst_unknown_items:
  "map fst (unknown_items unknown keys) =
     filter (\<lambda>k. \<exists>item. unknown k = Some item \<and> length item > 0) keys"
  by (induction keys) (auto simp: unknown_items_def split: option.splits)

lemma set_unknown_items:
  "set (unknown_items unknown keys) =
     {(k, item). k \<in> set keys \<and> unknown k = Some item \<and> length item > 0}"
  by (induction keys) (auto simp: unknown_items_def split: option.splits if_splits)

lemma map_of_unknown_items:
  "map_of (unknown_items unknown keys) k =
     (if k \<in> set keys then
        (case unknown k of None \<Rightarrow> None | Some item \<Rightarrow> if length item > 0 then Some item else None)
      else None)"
  by (induction keys) (auto simp: unknown_items_def split: option.splits)

lemma unknown_typecode_above:
  fixes k :: uint64
  assumes "k \<notin> {P2PKHItem, P2SHItem, SaplingItem, OrchardItem}"
  shows "3 < k"
proof -
  have "unat k \<noteq> 0" "unat k \<noteq> 1" "unat k \<noteq> 2" "unat k \<noteq> 3"
    using assms
    by (auto simp: P2PKHItem_def P2SHItem_def SaplingItem_def OrchardItem_def
        word_unat_eq_iff)
  then show ?thesis
    by (simp add: word_less_nat_alt)
qed


lemma sorted_emitted_items:
  assumes "unknown_well_formed addr" and "iteration_order (Unknown addr) keys"
    and "sorted_wrt (<) keys"
  shows "sorted_wrt (<) (map fst (emitted_items addr keys))"
proof -
  have above: "3 < k" if "k \<in> set keys" for k
  proof -
    have "k \<in> dom (Unknown addr)"
      using that assms(2) by (simp add: iteration_order_def)
    then obtain v where "Unknown addr k = Some v"
      by blast
    then have "k \<notin> {P2PKHItem, P2SHItem, SaplingItem, OrchardItem}"
      using assms(1) unfolding unknown_well_formed_def by blast
    then show ?thesis
      by (rule unknown_typecode_above)
  qed
  have unknown: "sorted_wrt (<) (map fst (unknown_items (Unknown addr) keys))"
    using assms(3) by (simp add: fst_unknown_items sorted_wrt_filter)
  have known: "sorted_wrt (<)
      (map fst (receiver_item P2PKHItem (UnifiedAddress.P2pkh addr)
        @ receiver_item P2SHItem (UnifiedAddress.P2sh addr)
        @ receiver_item SaplingItem (UnifiedAddress.Sapling addr)
        @ receiver_item OrchardItem (UnifiedAddress.Orchard addr)))"
    by (simp add: receiver_item_def P2PKHItem_def P2SHItem_def SaplingItem_def OrchardItem_def
        split: option.splits)
  have below: "t \<le> 3"
    if "t \<in> fst ` set (receiver_item P2PKHItem (UnifiedAddress.P2pkh addr)
        @ receiver_item P2SHItem (UnifiedAddress.P2sh addr)
        @ receiver_item SaplingItem (UnifiedAddress.Sapling addr)
        @ receiver_item OrchardItem (UnifiedAddress.Orchard addr))" for t
    using that
    by (auto simp: receiver_item_def P2PKHItem_def P2SHItem_def SaplingItem_def OrchardItem_def
        split: option.splits)
  have cross: "t < k"
    if "t \<in> fst ` set (receiver_item P2PKHItem (UnifiedAddress.P2pkh addr)
        @ receiver_item P2SHItem (UnifiedAddress.P2sh addr)
        @ receiver_item SaplingItem (UnifiedAddress.Sapling addr)
        @ receiver_item OrchardItem (UnifiedAddress.Orchard addr))"
      and "k \<in> fst ` set (unknown_items (Unknown addr) keys)" for t k
  proof -
    have "k \<in> set keys"
      using that(2) by (auto simp: set_unknown_items)
    then show ?thesis
      using above [of k] below [OF that(1)] by simp
  qed
  have "sorted_wrt (<)
      (map fst (receiver_item P2PKHItem (UnifiedAddress.P2pkh addr)
        @ receiver_item P2SHItem (UnifiedAddress.P2sh addr)
        @ receiver_item SaplingItem (UnifiedAddress.Sapling addr)
        @ receiver_item OrchardItem (UnifiedAddress.Orchard addr))
       @ map fst (unknown_items (Unknown addr) keys))"
    unfolding sorted_wrt_append using known unknown cross by auto
  then show ?thesis
    by (simp add: emitted_items_def)
qed

lemma lengths_emitted_items:
  assumes "fixed_size addr" and "unknown_well_formed addr"
  shows "\<forall>(t, v) \<in> set (emitted_items addr keys). length v < 2 ^ 64
           \<and> (getExpectedLength t > 0 \<longrightarrow> of_nat (length v) = getExpectedLength t)"
proof -
  have known: "length v < 2 ^ 64
      \<and> (getExpectedLength t > 0 \<longrightarrow> of_nat (length v) = getExpectedLength t)"
    if "(t, v) \<in> set (receiver_item P2PKHItem (UnifiedAddress.P2pkh addr)
        @ receiver_item P2SHItem (UnifiedAddress.P2sh addr)
        @ receiver_item SaplingItem (UnifiedAddress.Sapling addr)
        @ receiver_item OrchardItem (UnifiedAddress.Orchard addr))" for t v
    using that assms(1)
    by (auto simp: receiver_item_def fixed_size_def has_length_def getExpectedLength_def
        P2PKHItem_def P2SHItem_def SaplingItem_def OrchardItem_def split: option.splits)
  have unknown: "length v < 2 ^ 64
      \<and> (getExpectedLength t > 0 \<longrightarrow> of_nat (length v) = getExpectedLength t)"
    if "(t, v) \<in> set (unknown_items (Unknown addr) keys)" for t v
  proof -
    have entry: "Unknown addr t = Some v"
      using that by (auto simp: set_unknown_items)
    then have "t \<notin> {P2PKHItem, P2SHItem, SaplingItem, OrchardItem}" and "length v < 2 ^ 63"
      using assms(2) by (auto simp: unknown_well_formed_def)
    then have "getExpectedLength t = 0" and "length v < 2 ^ 64"
      by (auto simp: getExpectedLength_def)
    then show ?thesis by simp
  qed
  show ?thesis
    using known unknown by (auto simp: emitted_items_def)
qed

lemma map_of_emitted_items:
  assumes "unknown_well_formed addr" and "iteration_order (Unknown addr) keys"
  shows "map_of (emitted_items addr keys) k =
     (if k = P2PKHItem then UnifiedAddress.P2pkh addr
      else if k = P2SHItem then UnifiedAddress.P2sh addr
      else if k = SaplingItem then UnifiedAddress.Sapling addr
      else if k = OrchardItem then UnifiedAddress.Orchard addr
      else Unknown addr k)"
proof -
  have unknown: "map_of (unknown_items (Unknown addr) keys) t = Unknown addr t" for t
  proof (cases "Unknown addr t")
    case None
    then show ?thesis by (simp add: map_of_unknown_items)
  next
    case (Some v)
    then have "t \<in> set keys" and "0 < length v"
      using assms by (auto simp: iteration_order_def unknown_well_formed_def)
    then show ?thesis
      using Some by (simp add: map_of_unknown_items)
  qed
  have known: "Unknown addr t = None"
    if "t \<in> {P2PKHItem, P2SHItem, SaplingItem, OrchardItem}" for t
    using that assms(1) unfolding unknown_well_formed_def
    by (cases "Unknown addr t") blast+
  have typecodes: "P2PKHItem \<noteq> P2SHItem" "P2PKHItem \<noteq> SaplingItem" "P2PKHItem \<noteq> OrchardItem"
    "P2SHItem \<noteq> SaplingItem" "P2SHItem \<noteq> OrchardItem" "SaplingItem \<noteq> OrchardItem"
    by (simp_all add: P2PKHItem_def P2SHItem_def SaplingItem_def OrchardItem_def)
  show ?thesis
    using known [of P2PKHItem] known [of P2SHItem] known [of SaplingItem] known [of OrchardItem]
      typecodes
    by (auto simp: emitted_items_def map_add_def map_of_receiver_item unknown
        split: option.splits)
qed

lemma copyArray_same: "length data = n \<Longrightarrow> copyArray n data = data"
  by (simp add: copyArray_def)

lemma DecodeUnified_result_emitted_items:
  assumes "fixed_size addr" and "unknown_well_formed addr"
    and "iteration_order (Unknown addr) keys"
  shows "DecodeUnified_result (map_of (emitted_items addr keys)) = addr"
proof -
  note m = map_of_emitted_items [OF assms(2, 3)]
  have copy20: "map_option (copyArray 20) field = field" if "has_length 20 field" for field
    using that by (cases field) (simp_all add: has_length_def copyArray_same)
  have copy43: "map_option (copyArray 43) field = field" if "has_length 43 field" for field
    using that by (cases field) (simp_all add: has_length_def copyArray_same)
  have unknown: "map_of (emitted_items addr keys)
      |` (- {P2PKHItem, P2SHItem, SaplingItem, OrchardItem}) = Unknown addr"
  proof
    fix k
    show "(map_of (emitted_items addr keys)
        |` (- {P2PKHItem, P2SHItem, SaplingItem, OrchardItem})) k = Unknown addr k"
    proof (cases "k \<in> {P2PKHItem, P2SHItem, SaplingItem, OrchardItem}")
      case True
      then have "Unknown addr k = None"
        using assms(2) by (cases "Unknown addr k") (auto simp: unknown_well_formed_def)
      then show ?thesis
        using True by (auto simp: restrict_map_def)
    next
      case False
      then show ?thesis
        by (simp add: restrict_map_def m)
    qed
  qed
  have known: "map_of (emitted_items addr keys) P2PKHItem = UnifiedAddress.P2pkh addr"
    "map_of (emitted_items addr keys) P2SHItem = UnifiedAddress.P2sh addr"
    "map_of (emitted_items addr keys) SaplingItem = UnifiedAddress.Sapling addr"
    "map_of (emitted_items addr keys) OrchardItem = UnifiedAddress.Orchard addr"
    unfolding m by (simp_all add: P2PKHItem_def P2SHItem_def SaplingItem_def OrchardItem_def)
  show ?thesis
    using assms(1) unfolding DecodeUnified_result_def known unknown
    by (simp add: fixed_size_def copy20 copy43)
qed

text \<open>
  Decoding the bytes that \<open>EncodeUnified\<close> hands to \<open>F4Jumble\<close>, for a prefix of at most
  16 bytes and a visit of the unknown items in ascending order.
\<close>

lemma DecodeUnified_decoded_rBytes:
  assumes "fixed_size addr" and "unknown_well_formed addr"
    and "length hrp \<le> 16"
    and "iteration_order (Unknown addr) keys" and "sorted_wrt (<) keys"
    and "EncodeUnified_rBytes addr hrp keys = Ok rBytes"
  shows "DecodeUnified_decoded rBytes hrp = Ok addr"
proof -
  let ?items = "emitted_items addr keys"
  have rBytes: "rBytes = concat (map item_bytes ?items) @ padding hrp"
    using assms(6) by (simp add: EncodeUnified_rBytes_items split: if_splits)
  have pad: "length (padding hrp) = 16"
    using assms(3) by (rule length_padding_short)
  have loop: "DecodeUnified_items (concat (map item_bytes ?items)) Map.empty NoPreviousItem =
      Ok (Map.empty ++ map_of ?items)"
  proof (rule DecodeUnified_items_ascending)
    show "sorted_wrt (<) (map fst ?items)"
      by (rule sorted_emitted_items [OF assms(2, 4, 5)])
    show "\<forall>(t, v) \<in> set ?items. length v < 2 ^ 64
        \<and> (getExpectedLength t > 0 \<longrightarrow> of_nat (length v) = getExpectedLength t)"
      by (rule lengths_emitted_items [OF assms(1, 2)])
    show "\<forall>t \<in> fst ` set ?items. Map.empty t = None"
      by simp
    show "NoPreviousItem = NoPreviousItem \<or> (\<forall>t \<in> fst ` set ?items. NoPreviousItem < t)"
      by simp
  qed
  show ?thesis
    using pad loop DecodeUnified_result_emitted_items [OF assms(1, 2, 4)]
    by (simp add: DecodeUnified_decoded_def rBytes)
qed


text \<open>With imported functions that undo each other, decoding sees the bytes that were encoded.\<close>

lemma DecodeUnified_of_EncodeUnified:
  assumes "libs_round_trip c hrp" and "EncodeUnified c addr hrp keys = Ok encoded"
  shows "\<exists>rBytes. EncodeUnified_rBytes addr hrp keys = Ok rBytes
           \<and> DecodeUnified c encoded hrp = DecodeUnified_decoded rBytes hrp"
proof -
  obtain rBytes jumbledBytes converted
    where rBytes: "EncodeUnified_rBytes addr hrp keys = Ok rBytes"
      and jumbled: "F4Jumble c rBytes = Ok jumbledBytes"
      and converted: "ConvertBits c jumbledBytes 8 5 True = Ok converted"
      and encoded: "EncodeM c hrp converted = Ok encoded"
    using assms(2) unfolding EncodeUnified_def bind_Ok_iff by blast
  have inverse: "F4JumbleInv c jumbledBytes = Ok rBytes"
    and long: "48 \<le> length jumbledBytes"
    using assms(1) jumbled unfolding libs_round_trip_def by auto
  have bits: "ConvertBits c converted 5 8 False = Ok jumbledBytes"
    and groups: "length jumbledBytes \<le> length converted"
    using assms(1) converted unfolding libs_round_trip_def by auto
  have decoded_text: "DecodeNoLimitWithVersion c encoded = (hrp, converted, VersionM, None)"
    using assms(1) encoded unfolding libs_round_trip_def by auto
  have "DecodeUnified c encoded hrp = DecodeUnified_decoded rBytes hrp"
    using decoded_text long groups bits inverse by (simp add: DecodeUnified_def)
  then show ?thesis
    using rBytes by blast
qed

text \<open>Whatever the order of the items, a successful pass stores only typecodes it has read.\<close>

lemma DecodeUnified_items_dom:
  assumes "DecodeUnified_items (concat (map item_bytes items)) receivers prevType = Ok r"
    and "\<forall>(t, v) \<in> set items. length v < 2 ^ 64"
  shows "dom r \<subseteq> dom receivers \<union> fst ` set items"
  using assms
proof (induction items arbitrary: receivers prevType)
  case Nil
  then show ?case by auto
next
  case (Cons item items)
  obtain t v where item: "item = (t, v)"
    by (cases item)
  have len: "length v < 2 ^ 64"
    using Cons.prems(2) item by simp
  have rest: "DecodeUnified_items (concat (map item_bytes items)) (receivers(t \<mapsto> v)) t = Ok r"
    using Cons.prems(1) item
      DecodeUnified_items_item_bytes [OF len, of t "concat (map item_bytes items)"
        receivers prevType]
    by (simp split: if_splits)
  have "\<forall>(t, v) \<in> set items. length v < 2 ^ 64"
    using Cons.prems(2) by simp
  from Cons.IH [OF rest this]
  have "dom r \<subseteq> dom (receivers(t \<mapsto> v)) \<union> fst ` set items" .
  then show ?case
    using item by auto
qed

lemma unknown_items_without_empty:
  "unknown_items (unknown |` {k. unknown k \<noteq> Some []}) (filter (\<lambda>k. unknown k \<noteq> Some []) keys) =
     unknown_items unknown keys"
  by (induction keys) (auto simp: unknown_items_def restrict_map_def split: option.splits)

lemma appendUnknown_without_empty:
  "appendUnknown unknown keys encodedItems =
     appendUnknown (unknown |` {k. unknown k \<noteq> Some []})
       (filter (\<lambda>k. unknown k \<noteq> Some []) keys) encodedItems"
  by (simp only: appendUnknown_items unknown_items_without_empty)


lemma libs_round_trip_plain_libs:
  assumes "CHR ''1'' \<notin> set hrp"
  shows "libs_round_trip plain_libs hrp"
proof -
  have jumble: "F4JumbleInv plain_libs jumbled = Ok message \<and> length jumbled = length message
      \<and> 48 \<le> length message"
    if "F4Jumble plain_libs message = Ok jumbled" for message jumbled
    using that by (auto simp: plain_defs split: if_splits)
  have bits: "ConvertBits plain_libs groups 5 8 False = Ok bytes \<and> length bytes \<le> length groups"
    if "ConvertBits plain_libs bytes 8 5 True = Ok groups" for bytes groups
    using that by (auto simp: plain_defs)
  have decoded_text: "DecodeNoLimitWithVersion plain_libs encoded = (hrp, groups, VersionM, None)"
    if "EncodeM plain_libs hrp groups = Ok encoded" for groups encoded
  proof -
    let ?tail = "map (\<lambda>b. char_of (unat b)) groups"
    have encoded: "encoded = hrp @ CHR ''1'' # ?tail"
      using that by (simp add: plain_defs)
    have other: "ch \<noteq> CHR ''1''" if "ch \<in> set hrp" for ch
      using that assms by auto
    have "takeWhile (\<lambda>ch. ch \<noteq> CHR ''1'') (hrp @ CHR ''1'' # ?tail) = hrp"
      by (subst takeWhile_append2) (simp_all add: other)
    moreover have "dropWhile (\<lambda>ch. ch \<noteq> CHR ''1'') (hrp @ CHR ''1'' # ?tail) = CHR ''1'' # ?tail"
      by (subst dropWhile_append2) (simp_all add: other)
    moreover have "map of_char ?tail = groups"
      by (simp add: map_idI)
    ultimately show ?thesis
      by (simp add: plain_defs encoded)
  qed
  show ?thesis
    unfolding libs_round_trip_def using jumble bits decoded_text by blast
qed

text \<open>
  Whatever the imported functions return, \<open>DecodeUnified\<close> under a prefix of more than 16
  bytes never succeeds: \<open>padding\<close> then returns the bytes of the prefix with no zero added,
  more than 16 bytes, and they are compared with the last 16 bytes of the buffer.
\<close>

lemma long_prefix_never_decodes:
  assumes "16 < length hrp"
  shows "DecodeUnified c encoded hrp \<noteq> Ok addr"
proof -
  have decoded: "DecodeUnified_decoded decoded hrp \<noteq> Ok addr" for decoded
  proof (cases "length decoded < 16")
    case True
    then show ?thesis
      by (simp add: DecodeUnified_decoded_def)
  next
    case False
    then have "length (drop (length decoded - 16) decoded) = 16"
      by simp
    moreover have "length (padding hrp) \<noteq> 16"
      using assms length_padding_long [of hrp] by simp
    ultimately have "drop (length decoded - 16) decoded \<noteq> padding hrp"
      by metis
    then show ?thesis
      using False by (simp add: DecodeUnified_decoded_def Let_def)
  qed
  show ?thesis
    using decoded
    by (auto simp: DecodeUnified_def bind_Ok_iff split: prod.splits)
qed

text \<open>
  C1, as the claim states it, fails for a prefix of more than 16 bytes. For the prefix
  \<open>abcdefghijklmnopq\<close> and an address with a Sapling receiver only, the encoding succeeds
  (here with the small library instance) and the decoding of its result fails with the
  padding error.
\<close>

theorem long_prefix_round_trip_fails:
  "EncodeUnified plain_libs sapling_only_address long_hrp [] = Ok long_hrp_string
   \<and> DecodeUnified plain_libs long_hrp_string long_hrp = Err InvalidTrailingPadding"
proof -
  have encode: "EncodeUnified plain_libs sapling_only_address long_hrp [] = Ok long_hrp_string"
    by (simp add: sapling_only_address_def long_hrp_def long_hrp_string_def encode_defs
        eval_defs plain_defs padding_def bytes_of_string_def char_of_def bit_0)
  have decoded_text: "DecodeNoLimitWithVersion plain_libs long_hrp_string =
      (long_hrp, map of_char ''qponmlkjihgfedcba'' @ replicate 43 0x11 @ [43, 2], VersionM, None)"
    by (simp add: plain_defs long_hrp_string_def long_hrp_def)
  have decode: "DecodeUnified plain_libs long_hrp_string long_hrp = Err InvalidTrailingPadding"
    unfolding DecodeUnified_def decoded_text
    by (simp add: plain_defs DecodeUnified_decoded_def long_hrp_def padding_def
        bytes_of_string_def)
  show ?thesis
    using encode decode by simp
qed

text \<open>
  C1, amended. Let \<open>addr\<close> have arrays of their declared sizes and well-formed \<open>Unknown\<close>
  entries (typecode not a known one, payload not empty); let the prefix have at most 16
  bytes; let \<open>range\<close> visit the \<open>Unknown\<close> map in ascending order of the typecodes (the
  only order when the map has at most one entry); and let the imported functions undo each
  other (\<open>libs_round_trip\<close>). Then, whenever \<open>EncodeUnified\<close> returns a text (it returns
  none when both \<open>P2pkh\<close> and \<open>P2sh\<close> are set, or when \<open>F4Jumble\<close> refuses the bytes),
  \<open>DecodeUnified\<close> of that text under the same prefix returns exactly \<open>addr\<close>.
\<close>

theorem unified_round_trip:
  assumes "fixed_size addr"
    and "unknown_well_formed addr"
    and "length hrp \<le> 16"
    and "iteration_order (Unknown addr) keys"
    and "sorted_wrt (<) keys"
    and "libs_round_trip c hrp"
    and "EncodeUnified c addr hrp keys = Ok encoded"
  shows "DecodeUnified c encoded hrp = Ok addr"
proof -
  obtain rBytes where rBytes: "EncodeUnified_rBytes addr hrp keys = Ok rBytes"
    and run: "DecodeUnified c encoded hrp = DecodeUnified_decoded rBytes hrp"
    using DecodeUnified_of_EncodeUnified [OF assms(6, 7)] by blast
  show ?thesis
    using DecodeUnified_decoded_rBytes [OF assms(1, 2, 3, 4, 5) rBytes] run by simp
qed

lemma two_unknown_address_well_formed:
  "fixed_size two_unknown_address" "unknown_well_formed two_unknown_address"
  "iteration_order (Unknown two_unknown_address) [4, 5]"
  by (auto simp: fixed_size_def has_length_def unknown_well_formed_def iteration_order_def
      two_unknown_address_def P2PKHItem_def P2SHItem_def SaplingItem_def OrchardItem_def
      split: if_splits)

theorem unified_round_trip_witness:
  "\<exists>encoded. EncodeUnified plain_libs two_unknown_address ''u'' [4, 5] = Ok encoded
     \<and> DecodeUnified plain_libs encoded ''u'' = Ok two_unknown_address"
proof -
  obtain encoded where encoded:
    "EncodeUnified plain_libs two_unknown_address ''u'' [4, 5] = Ok encoded"
    by (simp add: two_unknown_address_def encode_defs eval_defs padding_u plain_defs)
  have "DecodeUnified plain_libs encoded ''u'' = Ok two_unknown_address"
  proof (rule unified_round_trip [OF two_unknown_address_well_formed(1, 2) _
        two_unknown_address_well_formed(3) _ _ encoded])
    show "length ''u'' \<le> 16"
      by simp
    show "sorted_wrt (<) [4, 5 :: uint64]"
      by simp
    show "libs_round_trip plain_libs ''u''"
      by (rule libs_round_trip_plain_libs) simp
  qed
  then show ?thesis
    using encoded by blast
qed


text \<open>
  C9. \<open>EncodeUnified\<close> skips every \<open>Unknown\<close> entry whose payload is empty: for every
  order of the visit, its result is the result for the address with these entries removed
  (visited in the same order, which is an order of the visit for that address). With
  imported functions that undo each other, no successful \<open>DecodeUnified\<close> of that result
  has an \<open>Unknown\<close> entry for the typecode of such an entry.
\<close>

theorem empty_unknown_entries_omitted:
  "EncodeUnified c addr hrp keys =
     EncodeUnified c (without_empty addr) hrp (filter (\<lambda>k. Unknown addr k \<noteq> Some []) keys)
   \<and> (iteration_order (Unknown addr) keys \<longrightarrow>
        iteration_order (Unknown (without_empty addr))
          (filter (\<lambda>k. Unknown addr k \<noteq> Some []) keys))
   \<and> (Unknown addr k = Some [] \<and> payloads_fit addr \<and> libs_round_trip c hrp
        \<and> EncodeUnified c addr hrp keys = Ok encoded
        \<and> DecodeUnified c encoded hrp = Ok decoded \<longrightarrow>
        Unknown decoded k = None)"
proof -
  let ?keys = "filter (\<lambda>k. Unknown addr k \<noteq> Some []) keys"
  have "EncodeUnified_rBytes addr hrp keys = EncodeUnified_rBytes (without_empty addr) hrp ?keys"
    using appendUnknown_without_empty [of "Unknown addr" keys]
    by (simp add: EncodeUnified_rBytes_def without_empty_def)
  then have same: "EncodeUnified c addr hrp keys = EncodeUnified c (without_empty addr) hrp ?keys"
    by (simp add: EncodeUnified_def)
  have order: "iteration_order (Unknown (without_empty addr)) ?keys"
    if "iteration_order (Unknown addr) keys"
    using that by (auto simp: iteration_order_def without_empty_def restrict_map_def dom_def)
  have lost: "Unknown decoded k = None"
    if empty: "Unknown addr k = Some []" and fit: "payloads_fit addr"
      and libs: "libs_round_trip c hrp"
      and encoded: "EncodeUnified c addr hrp keys = Ok encoded"
      and decoded: "DecodeUnified c encoded hrp = Ok decoded"
  proof -
    let ?items = "emitted_items addr keys"
    obtain rBytes where rBytes: "EncodeUnified_rBytes addr hrp keys = Ok rBytes"
      and run: "DecodeUnified c encoded hrp = DecodeUnified_decoded rBytes hrp"
      using DecodeUnified_of_EncodeUnified [OF libs encoded] by blast
    have bytes: "rBytes = concat (map item_bytes ?items) @ padding hrp"
      using rBytes by (simp add: EncodeUnified_rBytes_items split: if_splits)
    have ok: "DecodeUnified_decoded rBytes hrp = Ok decoded"
      using run decoded by simp
    then have suffix: "drop (length rBytes - 16) rBytes = padding hrp" and "16 \<le> length rBytes"
      by (auto simp: DecodeUnified_decoded_def Let_def split: if_splits)
    then have "length (padding hrp) = 16"
      by (metis length_drop diff_diff_cancel)
    then have body: "take (length rBytes - 16) rBytes = concat (map item_bytes ?items)"
      by (simp add: bytes)
    obtain r where loop: "DecodeUnified_items (concat (map item_bytes ?items)) Map.empty
        NoPreviousItem = Ok r" and result: "decoded = DecodeUnified_result r"
      using ok suffix body
      by (auto simp: DecodeUnified_decoded_def Let_def bind_Ok_iff split: if_splits)
    have sizes: "\<forall>(t, v) \<in> set ?items. length v < 2 ^ 64"
    proof -
      have "length v < 2 ^ 64" if "Unknown addr t = Some v" for t v
      proof -
        have "length v < 2 ^ 63"
          using fit that unfolding payloads_fit_def by blast
        then show ?thesis by simp
      qed
      then show ?thesis
        using fit
        by (auto simp: emitted_items_def receiver_item_def set_unknown_items payloads_fit_def
            fixed_size_def has_length_def split: option.splits)
    qed
    have dom: "dom r \<subseteq> fst ` set ?items"
      using DecodeUnified_items_dom [OF loop sizes] by simp
    show ?thesis
    proof (cases "k \<in> {P2PKHItem, P2SHItem, SaplingItem, OrchardItem}")
      case True
      then show ?thesis
        by (auto simp: result DecodeUnified_result_def restrict_map_def)
    next
      case False
      then have "k \<notin> fst ` set ?items"
        using empty
        by (auto simp: emitted_items_def receiver_item_def set_unknown_items
            split: option.splits)
      then have "r k = None"
        using dom by blast
      then show ?thesis
        by (simp add: result DecodeUnified_result_def restrict_map_def)
    qed
  qed
  show ?thesis
    using same order lost by blast
qed

lemma empty_entry_round_trip:
  "bind (EncodeUnified plain_libs empty_entry_address ''u'' [7, 4])
     (\<lambda>encoded. DecodeUnified plain_libs encoded ''u'') =
   Ok (DecodeUnified_result [2 \<mapsto> replicate 43 0x11, 4 \<mapsto> [0xAA]])"
  apply (simp add: empty_entry_address_def encode_defs eval_defs padding_u plain_defs)
  apply (simp add: DecodeUnified_def plain_defs)
  apply (simp add: DecodeUnified_decoded_def padding_u DecodeUnified_items.simps eval_defs)
  done

theorem empty_unknown_entries_omitted_witness:
  "\<exists>encoded decoded.
     EncodeUnified plain_libs empty_entry_address ''u'' [7, 4] = Ok encoded
     \<and> EncodeUnified plain_libs (without_empty empty_entry_address) ''u'' [4] = Ok encoded
     \<and> iteration_order (Unknown (without_empty empty_entry_address)) [4]
     \<and> DecodeUnified plain_libs encoded ''u'' = Ok decoded
     \<and> Unknown decoded 7 = None"
proof -
  obtain encoded where encoded:
    "EncodeUnified plain_libs empty_entry_address ''u'' [7, 4] = Ok encoded"
    by (simp add: empty_entry_address_def encode_defs eval_defs padding_u plain_defs)
  let ?decoded = "DecodeUnified_result [2 \<mapsto> replicate 43 0x11, 4 \<mapsto> [0xAA]]"
  have decoded: "DecodeUnified plain_libs encoded ''u'' = Ok ?decoded"
    using empty_entry_round_trip encoded by simp
  have entry: "Unknown empty_entry_address 7 = Some []"
    by (simp add: empty_entry_address_def)
  have fit: "payloads_fit empty_entry_address"
    by (auto simp: payloads_fit_def fixed_size_def has_length_def empty_entry_address_def
        split: if_splits)
  have order: "iteration_order (Unknown empty_entry_address) [7, 4]"
    by (auto simp: iteration_order_def empty_entry_address_def)
  have libs: "libs_round_trip plain_libs ''u''"
    by (rule libs_round_trip_plain_libs) simp
  have keys: "filter (\<lambda>k. Unknown empty_entry_address k \<noteq> Some []) [7, 4] = [4]"
    by (simp add: empty_entry_address_def)
  from empty_unknown_entries_omitted [of plain_libs empty_entry_address "''u''" "[7, 4]" 7
      encoded ?decoded]
  have "EncodeUnified plain_libs (without_empty empty_entry_address) ''u'' [4] = Ok encoded"
    and "iteration_order (Unknown (without_empty empty_entry_address)) [4]"
    and "Unknown ?decoded 7 = None"
    using encoded decoded entry fit order libs keys by simp_all
  then show ?thesis
    using encoded decoded by blast
qed

end
